theory Spec2Isabelle
  imports Main "HOL-Library.AList"
begin

section \<open>Strings and paths of the Go standard library\<close>

text \<open>
  Go strings are byte sequences, here \<open>string\<close>. The helpers below follow the
  documented behaviour of the packages \<open>strings\<close> and \<open>path/filepath\<close> (with the
  separator \<open>/\<close>).
\<close>

definition HasPrefix :: "string \<Rightarrow> string \<Rightarrow> bool" where
  "HasPrefix s p = (take (length p) s = p)"

definition HasSuffix :: "string \<Rightarrow> string \<Rightarrow> bool" where
  "HasSuffix s x = (length x \<le> length s \<and> drop (length s - length x) s = x)"

definition TrimSuffix :: "string \<Rightarrow> string \<Rightarrow> string" where
  "TrimSuffix s x = (if HasSuffix s x then take (length s - length x) s else s)"

fun Contains :: "string \<Rightarrow> string \<Rightarrow> bool" where
  "Contains [] sub = (sub = [])"
| "Contains (c # s) sub = (HasPrefix (c # s) sub \<or> Contains s sub)"

text \<open>\<open>strings.Split(s, sep)\<close> for a separator of one byte, the only use in the source.\<close>

fun Split :: "string \<Rightarrow> char \<Rightarrow> string list" where
  "Split [] sep = [[]]"
| "Split (c # s) sep =
     (if c = sep then [] # Split s sep
      else (case Split s sep of [] \<Rightarrow> [[c]] | x # xs \<Rightarrow> (c # x) # xs))"

text \<open>
  \<open>filepath.Ext\<close>: the loop runs \<open>i\<close> from the last byte down while \<open>path[i]\<close> is no
  separator and returns \<open>path[i:]\<close> at the first dot it meets. \<open>ExtLoop path (Suc i)\<close>
  is the iteration that looks at index \<open>i\<close>.
\<close>

fun ExtLoop :: "string \<Rightarrow> nat \<Rightarrow> string" where
  "ExtLoop path 0 = []"
| "ExtLoop path (Suc i) =
     (if path ! i = CHR ''/'' then []
      else if path ! i = CHR ''.'' then drop i path
      else ExtLoop path i)"

definition Ext :: "string \<Rightarrow> string" where
  "Ext path = ExtLoop path (length path)"

text \<open>
  \<open>strToolkit.TrimStart\<close> and \<open>strToolkit.TrimEnd\<close> (package
  \<open>github.com/StevenZack/tools\<close>, a separate library): one leading, respectively
  trailing, occurrence of the second argument is removed when present.
\<close>

definition TrimStart :: "string \<Rightarrow> string \<Rightarrow> string" where
  "TrimStart s p = (if HasPrefix s p then drop (length p) s else s)"

definition TrimEnd :: "string \<Rightarrow> string \<Rightarrow> string" where
  "TrimEnd s x = (if HasSuffix s x then take (length s - length x) s else s)"

text \<open>The byte \<open>'\<close>, which the error messages of the source put around names.\<close>

definition q :: string where
  "q = [CHR 0x27]"

section \<open>Errors\<close>

text \<open>
  A Go \<open>error\<close> value: a missing file as \<open>os.IsNotExist\<close> recognises it, an
  \<open>errors.New\<close> message or an error of a library, and \<open>fmt.Errorf\<close> with \<open>%w\<close>
  around another error.
\<close>

datatype error = NotExist string | New string | Errorf string error

fun IsNotExist :: "error \<Rightarrow> bool" where
  "IsNotExist (NotExist p) = True"
| "IsNotExist (New m) = False"
| "IsNotExist (Errorf m e) = False"

fun Error :: "error \<Rightarrow> string" where
  "Error (NotExist p) = ''open '' @ p @ '': no such file or directory''"
| "Error (New m) = m"
| "Error (Errorf m e) = m @ Error e"

section \<open>Configuration (package config)\<close>

record Route =
  Path :: string
  To :: string

record LangT =
  Dir :: string
  Default :: string
  KeyAsValue :: bool

text \<open>
  The struct \<open>Config\<close>. \<open>Envs\<close> and \<open>Strs\<close> are Go maps, which may be \<open>nil\<close>:
  \<open>None\<close> is the nil map, \<open>Some kvs\<close> a map read with \<open>map_of\<close> and written with
  \<open>AList.update\<close>. The struct refers to itself through \<open>Envs\<close>, hence a datatype
  with selectors.
\<close>

datatype Config = Config
  (Host: string)
  (Port: int)
  (Routes: "Route list")
  (NotFoundPage: string)
  (BlackList: "string list")
  (ApiServer: string)
  (Envs: "(string \<times> Config) list option")
  (Lang: LangT)
  (Root: string)
  (Env: string)
  (InternalBlackList: "string list")
  (Strs: "(string \<times> (string \<times> string) list) list option")

definition CONFIG_FILE_NAME :: string where
  "CONFIG_FILE_NAME = ''gte.config.json''"

text \<open>
  The operating system and the libraries the loader calls: \<open>ioutil.ReadFile\<close>,
  \<open>os.Stat\<close> (\<open>None\<close> is a nil error), \<open>ioutil.ReadDir\<close> (the names of the entries, in
  the order returned), \<open>filepath.Join\<close> of two elements, \<open>filepath.Base\<close>, the JSON
  decoder behind \<open>json.Unmarshal\<close>, \<open>language.Parse\<close>, \<open>url.PathUnescape\<close> and
  \<open>mime.TypeByExtension\<close>. They are parameters of the model: every theorem holds for
  each file system and each behaviour of these functions.
\<close>

record World =
  ReadFile :: "string \<Rightarrow> error + string"
  Stat :: "string \<Rightarrow> error option"
  ReadDir :: "string \<Rightarrow> error + string list"
  Join :: "string \<Rightarrow> string \<Rightarrow> string"
  Base :: "string \<Rightarrow> string"
  json_decode :: "string \<Rightarrow> Config \<Rightarrow> Config \<times> error option"
  language_Parse :: "string \<Rightarrow> error option"
  PathUnescape :: "string \<Rightarrow> string \<times> error option"
  TypeByExtension :: "string \<Rightarrow> string"

text \<open>
  \<open>json.Unmarshal(b, &v)\<close> writes into \<open>v\<close> and returns an error. The fields tagged
  \<open>json:"-"\<close> (\<open>Root\<close>, \<open>Env\<close>, \<open>InternalBlackList\<close>, \<open>Strs\<close>) are never written by
  the decoder.
\<close>

definition Unmarshal :: "World \<Rightarrow> string \<Rightarrow> Config \<Rightarrow> Config \<times> error option" where
  "Unmarshal W b v =
     (case json_decode W b v of
        (v', e) \<Rightarrow>
          (Config (Host v') (Port v') (Routes v') (NotFoundPage v') (BlackList v')
             (ApiServer v') (Envs v') (Lang v')
             (Root v) (Env v) (InternalBlackList v) (Strs v), e))"

section \<open>Requests, responses and templates\<close>

text \<open>
  Of \<open>*http.Request\<close> the handler reads \<open>r.URL.Path\<close> and \<open>r.Header.Get\<close> (the
  empty string for a header that is not there).
\<close>

record Request =
  URL_Path :: string
  Header_Get :: "string \<Rightarrow> string"

text \<open>
  What the handler does to the \<open>http.ResponseWriter\<close>: the header map it sets, and the
  calls that write the response, in order. \<open>HttpNotFound\<close> is \<open>http.NotFound\<close>,
  \<open>HttpError m\<close> is \<open>http.Error\<close> with status 500, \<open>HttpServeFile p\<close> is
  \<open>http.ServeFile\<close>, \<open>Write b\<close> is \<open>w.Write\<close>, and \<open>GzipWrite n b\<close> is what a
  \<open>gzip.Writer\<close> named \<open>n\<close> has written once closed, after \<open>b\<close> was copied into it.
  Writes to the connection do not fail in this model.
\<close>

datatype action =
  HttpNotFound | HttpError string | HttpServeFile string | Write string | GzipWrite string string

record ResponseWriter =
  headers :: "string \<rightharpoonup> string"
  written :: "action list"

definition Header_Set :: "ResponseWriter \<Rightarrow> string \<Rightarrow> string \<Rightarrow> ResponseWriter" where
  "Header_Set w k x = w\<lparr>headers := (headers w)(k \<mapsto> x)\<rparr>"

definition emit :: "ResponseWriter \<Rightarrow> action \<Rightarrow> ResponseWriter" where
  "emit w a = w\<lparr>written := written w @ [a]\<rparr>"

text \<open>
  \<open>NewContext(s.cfg, route, w, r)\<close> is not among the sources; the template receives its
  four arguments. A parsed template set is the function \<open>t.ExecuteTemplate\<close> from the
  template name and the context to the bytes written into the buffer and the error.
\<close>

record Context =
  ctx_cfg :: Config
  ctx_route :: Route
  ctx_w :: ResponseWriter
  ctx_r :: Request

type_synonym Template = "string \<Rightarrow> Context \<Rightarrow> string \<times> error option"

text \<open>
  Package \<open>util\<close> of the repository is not among the sources. What the code under
  study calls from it is a parameter of the model.
\<close>

record Util =
  ReplaceFieldIND :: "Config \<Rightarrow> Config \<Rightarrow> Config \<times> error option"
  LANG_FILE_EXT :: string
  LoadJsonLangFile :: "string \<Rightarrow> error + (string \<times> string) list"
  FormatParam :: "string \<Rightarrow> string"
  MatchRoute :: "string \<Rightarrow> string \<Rightarrow> bool"
  GetLangShort :: "Request \<Rightarrow> string"
  GetLang :: "Request \<Rightarrow> string"
  ShouldCWebp :: "string \<Rightarrow> bool"
  ShouldGZip :: "string \<Rightarrow> bool"
  ParseTemplates :: "string \<Rightarrow> Template option \<times> error option"

section \<open>LoadConfig\<close>

definition set_Strs ::
  "Config \<Rightarrow> (string \<times> (string \<times> string) list) list option \<Rightarrow> Config" where
  "set_Strs v s =
     Config (Host v) (Port v) (Routes v) (NotFoundPage v) (BlackList v) (ApiServer v)
       (Envs v) (Lang v) (Root v) (Env v) (InternalBlackList v) s"

text \<open>The block \<open>//handle envs\<close>: the configuration and the error it returns with, if any.\<close>

definition handleEnvs :: "Util \<Rightarrow> string \<Rightarrow> Config \<Rightarrow> Config \<times> error option" where
  "handleEnvs U env v =
     (case Envs v of
        None \<Rightarrow> (v, None)
      | Some envs \<Rightarrow>
          if env = [] then (v, None)
          else (case map_of envs env of
                  None \<Rightarrow> (v, Some (New (''No environment named '' @ q @ env @ q)))
                | Some v1 \<Rightarrow> ReplaceFieldIND U v v1))"

text \<open>
  The loop over the directory entries. \<open>v.Strs\<close> is the map \<open>m\<close>; an early return
  leaves in it what was loaded so far.
\<close>

fun loadLangFiles ::
  "World \<Rightarrow> Util \<Rightarrow> string \<Rightarrow> string list \<Rightarrow> (string \<times> (string \<times> string) list) list
     \<Rightarrow> (string \<times> (string \<times> string) list) list \<times> error option" where
  "loadLangFiles W U langDir [] m = (m, None)"
| "loadLangFiles W U langDir (f # fs) m =
     (if \<not> HasSuffix f (LANG_FILE_EXT U) then loadLangFiles W U langDir fs m
      else
        let lang = TrimEnd f (LANG_FILE_EXT U) in
        case language_Parse W lang of
          Some e \<Rightarrow>
            (m, Some (New (''Invalid language resource name '' @ q @ f @ q @ '', e.g. '' @ q
                 @ ''zh-HK'' @ q @ LANG_FILE_EXT U
                 @ '' .https://www.unicode.org/reports/tr35/#Unicode_Language_and_Locale_Identifiers'')))
        | None \<Rightarrow>
            (case LoadJsonLangFile U (Join W langDir f) of
               Inl e \<Rightarrow>
                 (m, Some (Errorf (''Reading language resource file '' @ q @ f @ q @ '' failed: '') e))
             | Inr m1 \<Rightarrow> loadLangFiles W U langDir fs (AList.update lang m1 m)))"

text \<open>The block \<open>//lang file check\<close>.\<close>

definition langCheck :: "World \<Rightarrow> Util \<Rightarrow> Config \<Rightarrow> Config \<times> error option" where
  "langCheck W U v =
     (if Dir (Lang v) \<noteq> [] then
        if Default (Lang v) = [] then
          (v, Some (New (q @ ''lang.dir'' @ q
             @ '' configure is set, but default language is not set. e.g. '' @ q @ ''zh-HK'' @ q)))
        else
          let langDir = Join W (Root v) (Dir (Lang v)) in
          if (case Stat W langDir of None \<Rightarrow> False | Some e \<Rightarrow> IsNotExist e) then
            (v, Some (New (''The language directory '' @ q @ langDir @ q @ '' doesn'' @ q @ ''t exist'')))
          else
            (case ReadDir W langDir of
               Inl e \<Rightarrow> (set_Strs v (Some []), Some e)
             | Inr fs \<Rightarrow>
                 (case loadLangFiles W U langDir fs [] of
                    (m, Some e) \<Rightarrow> (set_Strs v (Some m), Some e)
                  | (m, None) \<Rightarrow>
                      if \<not> KeyAsValue (Lang v) \<and> map_of m (Default (Lang v)) = None then
                        (set_Strs v (Some m),
                         Some (New (''The default language resource file '' @ q @ Default (Lang v)
                           @ ''.json'' @ q @ '' not found'')))
                      else (set_Strs v (Some m), None)))
      else (v, None))"

definition LoadConfig :: "World \<Rightarrow> Util \<Rightarrow> string \<Rightarrow> string \<Rightarrow> int \<Rightarrow> Config \<times> error option" where
  "LoadConfig W U env root port =
     (let v = Config ''0.0.0.0'' port [] [] [] ''http://localhost'' None
                \<lparr>Dir = [], Default = [], KeyAsValue = False\<rparr>
                root env [''/'' @ CONFIG_FILE_NAME] None
      in case ReadFile W (Join W root CONFIG_FILE_NAME) of
           Inl e \<Rightarrow> if IsNotExist e then (v, None) else (v, Some e)
         | Inr b \<Rightarrow>
             (case Unmarshal W b v of
                (v, Some e) \<Rightarrow> (v, Some e)
              | (v, None) \<Rightarrow>
                  (case handleEnvs U env v of
                     (v, Some e) \<Rightarrow> (v, Some e)
                   | (v, None) \<Rightarrow> langCheck W U v)))"

section \<open>Route.Params\<close>

text \<open>
  The loop of \<open>Params\<close> walks both segment lists by one index, so it ends with the shorter
  list.
\<close>

fun ParamsLoop :: "string list \<Rightarrow> string list \<Rightarrow> (string \<rightharpoonup> string) \<Rightarrow> (string \<rightharpoonup> string)" where
  "ParamsLoop (k # ss1) (x # ss2) m =
     (if k = [] then ParamsLoop ss1 ss2 m
      else if \<not> HasPrefix k '':'' then ParamsLoop ss1 ss2 m
      else ParamsLoop ss1 ss2 (m(TrimStart k '':'' \<mapsto> x)))"
| "ParamsLoop [] ss2 m = m"
| "ParamsLoop ss1 [] m = m"

definition Params :: "Route \<Rightarrow> string \<Rightarrow> (string \<rightharpoonup> string)" where
  "Params r uri = ParamsLoop (Split (Path r) CHR ''/'') (Split uri CHR ''/'') Map.empty"

section \<open>The server (package server)\<close>

text \<open>
  A pre-handler receives the response writer and the request (a pointer, so it may change
  it) and tells whether it has answered the request.
\<close>

type_synonym Prehandler = "ResponseWriter \<Rightarrow> Request \<Rightarrow> bool \<times> ResponseWriter \<times> Request"

record HTTPServerT =
  Addr :: string

text \<open>
  The struct \<open>Server\<close>. The field \<open>funcs\<close>, the fixed table of template helpers, is
  left to \<open>ParseTemplates\<close>.
\<close>

record Server =
  HTTPServer :: HTTPServerT
  cfg :: Config
  prehandlers :: "Prehandler list"
  isProduction :: bool

text \<open>\<open>strconv.Itoa\<close>: the decimal digits of an integer.\<close>

function digits :: "nat \<Rightarrow> string" where
  "digits n =
     (if n < 10 then [''0123456789'' ! n]
      else digits (n div 10) @ [''0123456789'' ! (n mod 10)])"
  by pat_completeness auto
termination
  by (relation "measure id") auto

definition Itoa :: "int \<Rightarrow> string" where
  "Itoa i = (if i < 0 then ''-'' @ digits (nat (- i)) else digits (nat i))"

text \<open>
  The loop \<open>//route duplication check\<close> of \<open>NewServer\<close>, with the map \<open>checked\<close>; it
  returns the error of the first clash.
\<close>

fun checkRoutes :: "Util \<Rightarrow> Route list \<Rightarrow> (string \<rightharpoonup> string) \<Rightarrow> error option" where
  "checkRoutes U [] checked = None"
| "checkRoutes U (route # rs) checked =
     (let f = FormatParam U (Path route) in
      case checked f of
        Some exists \<Rightarrow>
          Some (New (''Duplicate route path: '' @ q @ Path route @ q @ '' with '' @ q @ exists @ q))
      | None \<Rightarrow> checkRoutes U rs (checked(f \<mapsto> Path route)))"

definition NewServer :: "Util \<Rightarrow> Config \<Rightarrow> bool \<Rightarrow> error + Server" where
  "NewServer U c isProd =
     (case checkRoutes U (Routes c) Map.empty of
        Some e \<Rightarrow> Inl e
      | None \<Rightarrow>
          Inr \<lparr>HTTPServer = \<lparr>Addr = Host c @ '':'' @ Itoa (Port c)\<rparr>, cfg = c,
               prehandlers = [], isProduction = isProd\<rparr>)"

definition AddPrehandler :: "Server \<Rightarrow> Prehandler \<Rightarrow> Server" where
  "AddPrehandler s fn = s\<lparr>prehandlers := prehandlers s @ [fn]\<rparr>"

definition NotFound :: "ResponseWriter \<Rightarrow> ResponseWriter" where
  "NotFound w = emit w HttpNotFound"

text \<open>The loop \<open>//prehandler\<close>: \<open>True\<close> when a pre-handler made \<open>ServeHTTP\<close> return.\<close>

fun runPrehandlers ::
  "Prehandler list \<Rightarrow> ResponseWriter \<Rightarrow> Request \<Rightarrow> bool \<times> ResponseWriter \<times> Request" where
  "runPrehandlers [] w r = (False, w, r)"
| "runPrehandlers (pre # ps) w r =
     (case pre w r of
        (interrupt, w', r') \<Rightarrow> if interrupt then (True, w', r') else runPrehandlers ps w' r')"

text \<open>The loop \<open>//blacklist\<close>: \<open>True\<close> when an entry equals the path.\<close>

fun blackLoop :: "string list \<Rightarrow> string \<Rightarrow> bool" where
  "blackLoop [] p = False"
| "blackLoop (black # bs) p = (if p = black then True else blackLoop bs p)"

text \<open>The loop over \<open>s.cfg.Routes\<close>: each match overwrites \<open>route\<close>.\<close>

fun routeLoop :: "Util \<Rightarrow> Route list \<Rightarrow> string \<Rightarrow> Route \<Rightarrow> Route" where
  "routeLoop U [] p route = route"
| "routeLoop U (cfgRoute # rs) p route =
     routeLoop U rs p
       (if MatchRoute U (Path cfgRoute) p
        then route\<lparr>Path := Path cfgRoute, To := To cfgRoute\<rparr> else route)"

text \<open>
  From \<open>//route\<close> to the end of the loop over the routes: the extension \<open>ext\<close> and the
  \<open>route\<close> the rest of the handler works with.
\<close>

definition resolveRoute :: "World \<Rightarrow> Util \<Rightarrow> Server \<Rightarrow> Request \<Rightarrow> string \<times> Route" where
  "resolveRoute W U s r =
     (let route = \<lparr>Path = URL_Path r, To = URL_Path r\<rparr>;
          route = (if To route = ''/'' then route\<lparr>To := ''/index.html''\<rparr> else route);
          ext = Ext (To route);
          prefix = TrimSuffix (To route) ext;
          route =
            (if Stat W (Join W (Root (cfg s)) (prefix @ ''_'' @ GetLangShort U r @ ext)) = None
             then route\<lparr>To := prefix @ ''_'' @ GetLangShort U r @ ext\<rparr>
             else if Stat W (Join W (Root (cfg s)) (prefix @ ''_'' @ GetLang U r @ ext)) = None
             then route\<lparr>To := prefix @ ''_'' @ GetLang U r @ ext\<rparr>
             else route)
      in (ext, routeLoop U (Routes (cfg s)) (URL_Path r) route))"

text \<open>The \<open>default\<close> case of the switch: a file is served.\<close>

definition serveStatic ::
  "World \<Rightarrow> Util \<Rightarrow> Server \<Rightarrow> ResponseWriter \<Rightarrow> Request \<Rightarrow> string \<Rightarrow> Route \<Rightarrow> ResponseWriter" where
  "serveStatic W U s w r ext route =
     (let path = Join W (Root (cfg s)) (To route) in
      if ShouldCWebp U ext \<and> Contains (Header_Get r ''Accept'') ''webp''
         \<and> Stat W (path @ ''.webp'') = None
      then emit w (HttpServeFile (path @ ''.webp''))
      else if ShouldGZip U ext \<and> Contains (Header_Get r ''Accept-Encoding'') ''gzip''
         \<and> Stat W (path @ ''.gzip'') = None
      then emit (Header_Set (Header_Set w ''Content-Encoding'' ''gzip'')
                   ''Content-Type'' (TypeByExtension W ext))
             (HttpServeFile (path @ ''.gzip''))
      else emit w (HttpServeFile path))"

text \<open>
  From \<open>//parse templates\<close> to the end. When \<open>url.PathUnescape\<close> fails, the deferred
  \<open>rw.Close()\<close> still runs after \<open>http.Error\<close>.
\<close>

definition renderTemplate ::
  "World \<Rightarrow> Util \<Rightarrow> Server \<Rightarrow> ResponseWriter \<Rightarrow> Request \<Rightarrow> Route \<Rightarrow> ResponseWriter" where
  "renderTemplate W U s w r route =
     (case ParseTemplates U (Root (cfg s)) of
        (t, Some e) \<Rightarrow> emit w (HttpError (Error e))
      | (None, None) \<Rightarrow> NotFound w
      | (Some t, None) \<Rightarrow>
          (case t (To route) \<lparr>ctx_cfg = cfg s, ctx_route = route, ctx_w = w, ctx_r = r\<rparr> of
             (out, Some e) \<Rightarrow>
               if Contains (Error e) ''is undefined'' then NotFound w
               else emit w (HttpError (Error e))
           | (out, None) \<Rightarrow>
               if Contains (Header_Get r ''Accept-Encoding'') ''gzip'' then
                 (case PathUnescape W (Base W (To route)) of
                    (name, Some e) \<Rightarrow> emit (emit w (HttpError (Error e))) (GzipWrite name [])
                  | (name, None) \<Rightarrow> emit w (GzipWrite name out))
               else emit w (Write out)))"

definition ServeHTTP :: "World \<Rightarrow> Util \<Rightarrow> Server \<Rightarrow> ResponseWriter \<Rightarrow> Request \<Rightarrow> ResponseWriter" where
  "ServeHTTP W U s w r =
     (case runPrehandlers (prehandlers s) w r of
        (True, w, r) \<Rightarrow> w
      | (False, w, r) \<Rightarrow>
          if blackLoop (BlackList (cfg s) @ InternalBlackList (cfg s)) (URL_Path r)
          then NotFound w
          else
            (case resolveRoute W U s r of
               (ext, route) \<Rightarrow>
                 if ext = ''.html'' then
                   let w = Header_Set w ''Content-Type'' ''text/html'';
                       w = (if Contains (Header_Get r ''Accept-Encoding'') ''gzip''
                            then Header_Set w ''Content-Encoding'' ''gzip'' else w)
                   in renderTemplate W U s w r route
                 else serveStatic W U s w r ext route))"

section \<open>The missing package \<open>util\<close>, from the specification\<close>

text \<open>
  Modelled from the spec: \<open>util.ReplaceFieldIND\<close> is not among the sources. The
  specification says of the environment override: "replace every field of the base
  configuration with the override's corresponding field (field-by-field substitution, not
  a recursive deep merge)". No failure of it is specified.
\<close>

definition ReplaceFieldIND_spec :: "Config \<Rightarrow> Config \<Rightarrow> Config \<times> error option" where
  "ReplaceFieldIND_spec dst src =
     (Config (Host src) (Port src) (Routes src) (NotFoundPage src) (BlackList src)
        (ApiServer src) (Envs src) (Lang src) (Root src) (Env src) (InternalBlackList src)
        (Strs src), None)"

text \<open>\<open>strings.Join(ss, "/")\<close>.\<close>

fun JoinSlash :: "string list \<Rightarrow> string" where
  "JoinSlash [] = []"
| "JoinSlash [x] = x"
| "JoinSlash (x # y # ys) = x @ ''/'' @ JoinSlash (y # ys)"

text \<open>
  Modelled from the spec: \<open>util.FormatParam\<close> is not among the sources. The
  specification calls its result the parameterized shape: "a route path with all parameter
  segments replaced by a placeholder", a parameter segment being one "prefixed with a
  marker character, e.g. a leading colon". The placeholder is not named there; the marker
  alone is taken.
\<close>

definition FormatParam_spec :: "string \<Rightarrow> string" where
  "FormatParam_spec path =
     JoinSlash (map (\<lambda>seg. if HasPrefix seg '':'' then '':'' else seg) (Split path CHR ''/''))"

text \<open>
  Modelled from the spec: \<open>util.MatchRoute\<close> is not among the sources. The
  specification: "compare segment counts and literal segments positionally; parameter
  segments match any non-empty value at that position".
\<close>

fun matchSegments :: "string list \<Rightarrow> string list \<Rightarrow> bool" where
  "matchSegments [] [] = True"
| "matchSegments (a # as) (b # bs) =
     ((if HasPrefix a '':'' then b \<noteq> [] else a = b) \<and> matchSegments as bs)"
| "matchSegments [] (b # bs) = False"
| "matchSegments (a # as) [] = False"

definition MatchRoute_spec :: "string \<Rightarrow> string \<Rightarrow> bool" where
  "MatchRoute_spec pattern path = matchSegments (Split pattern CHR ''/'') (Split path CHR ''/'')"

section \<open>A concrete environment for the examples\<close>

text \<open>
  The examples run the model in one concrete environment. Of package \<open>util\<close> it takes the
  three definitions above; the resource extension is \<open>.json\<close>, as the error message of
  \<open>LoadConfig\<close> has it; the locale of a request is its \<open>Accept-Language\<close> header and
  the short form the part before the first hyphen; the image and compression extensions
  are small sample sets; every resource file holds the empty table; the template set
  writes the name of the template.
\<close>

definition exampleUtil :: Util where
  "exampleUtil =
     \<lparr>ReplaceFieldIND = ReplaceFieldIND_spec,
      LANG_FILE_EXT = ''.json'',
      LoadJsonLangFile = (\<lambda>p. Inr []),
      FormatParam = FormatParam_spec,
      MatchRoute = MatchRoute_spec,
      GetLangShort = (\<lambda>r. takeWhile (\<lambda>c. c \<noteq> CHR ''-'') (Header_Get r ''Accept-Language'')),
      GetLang = (\<lambda>r. Header_Get r ''Accept-Language''),
      ShouldCWebp = (\<lambda>e. e \<in> set [''.png'', ''.jpg'', ''.jpeg'']),
      ShouldGZip = (\<lambda>e. e \<in> set [''.js'', ''.css'', ''.svg'']),
      ParseTemplates = (\<lambda>root. (Some (\<lambda>name ctx. (''<'' @ name @ ''>'', None)), None))\<rparr>"

text \<open>
  The world of the examples: the files of \<open>files\<close> exist, there is no descriptor and no
  directory to list, and \<open>filepath.Join\<close> is what it is on two clean, non-empty
  elements.
\<close>

definition exampleWorld :: "string list \<Rightarrow> World" where
  "exampleWorld files =
     \<lparr>ReadFile = (\<lambda>p. Inl (NotExist p)),
      Stat = (\<lambda>p. if p \<in> set files then None else Some (NotExist p)),
      ReadDir = (\<lambda>p. Inl (NotExist p)),
      Join = (\<lambda>a b. if hd b = CHR ''/'' then a @ b else a @ ''/'' @ b),
      Base = (\<lambda>p. last (Split p CHR ''/'')),
      json_decode = (\<lambda>b v. (v, None)),
      language_Parse = (\<lambda>t. None),
      PathUnescape = (\<lambda>p. (p, None)),
      TypeByExtension = (\<lambda>e. ''application/octet-stream'')\<rparr>"

definition exampleRequest :: "string \<Rightarrow> (string \<rightharpoonup> string) \<Rightarrow> Request" where
  "exampleRequest p hs =
     \<lparr>URL_Path = p, Header_Get = (\<lambda>k. case hs k of None \<Rightarrow> [] | Some x \<Rightarrow> x)\<rparr>"

definition exampleConfig :: "Route list \<Rightarrow> string list \<Rightarrow> Config" where
  "exampleConfig rs bl =
     Config ''0.0.0.0'' 8080 rs [] bl ''http://localhost'' None
       \<lparr>Dir = [], Default = [], KeyAsValue = False\<rparr> ''www'' [] [''/'' @ CONFIG_FILE_NAME] None"

definition exampleServer :: "Route list \<Rightarrow> string list \<Rightarrow> Prehandler list \<Rightarrow> Server" where
  "exampleServer rs bl pre =
     \<lparr>HTTPServer = \<lparr>Addr = ''0.0.0.0:8080''\<rparr>, cfg = exampleConfig rs bl,
      prehandlers = pre, isProduction = False\<rparr>"

definition emptyWriter :: ResponseWriter where
  "emptyWriter = \<lparr>headers = Map.empty, written = []\<rparr>"




section \<open>Route matching\<close>

lemma routeLoop_append:
  "routeLoop U (xs @ ys) p route = routeLoop U ys p (routeLoop U xs p route)"
  by (induction xs arbitrary: route) simp_all

lemma routeLoop_nomatch:
  "\<forall>c \<in> set routes. \<not> MatchRoute U (Path c) p \<Longrightarrow> routeLoop U routes p route = route"
  by (induction routes arbitrary: route) simp_all

lemma routeLoop_last:
  assumes "i < length routes" and "MatchRoute U (Path (routes ! i)) p"
    and "\<forall>j. i < j \<and> j < length routes \<longrightarrow> \<not> MatchRoute U (Path (routes ! j)) p"
  shows "routeLoop U routes p route = \<lparr>Path = Path (routes ! i), To = To (routes ! i)\<rparr>"
proof -
  let ?pre = "take i routes" and ?post = "drop (Suc i) routes"
  have parts: "routes = ?pre @ [routes ! i] @ ?post"
    using assms(1) by (simp add: id_take_nth_drop)
  have tail: "\<forall>c \<in> set ?post. \<not> MatchRoute U (Path c) p"
  proof
    fix c assume "c \<in> set ?post"
    then obtain k where k: "k < length ?post" "c = ?post ! k"
      by (auto simp: in_set_conv_nth)
    then have "c = routes ! (Suc i + k)" "Suc i + k < length routes" by auto
    with assms(3) show "\<not> MatchRoute U (Path c) p" by simp
  qed
  have "routeLoop U routes p route = routeLoop U (?pre @ [routes ! i] @ ?post) p route"
    using parts by simp
  also have "\<dots> = routeLoop U ?post p (routeLoop U [routes ! i] p (routeLoop U ?pre p route))"
    by (simp only: routeLoop_append)
  also have "\<dots> = routeLoop U [routes ! i] p (routeLoop U ?pre p route)"
    using tail by (rule routeLoop_nomatch)
  also have "\<dots> = \<lparr>Path = Path (routes ! i), To = To (routes ! i)\<rparr>"
    using assms(2) by simp
  finally show ?thesis .
qed

text \<open>
  Claim C2. The scan of the route table goes through the routes in declaration order and
  each matching route overwrites the result, so the last declared route that matches the
  request path gives the path and the target; when no route matches, the route is left as
  it was. The result is a function of the table and the path.
\<close>

theorem route_matching_last_wins:
  "((\<forall>c \<in> set routes. \<not> MatchRoute U (Path c) p) \<longrightarrow> routeLoop U routes p route = route)
   \<and> (\<forall>i. i < length routes \<and> MatchRoute U (Path (routes ! i)) p
          \<and> (\<forall>j. i < j \<and> j < length routes \<longrightarrow> \<not> MatchRoute U (Path (routes ! j)) p)
        \<longrightarrow> routeLoop U routes p route = \<lparr>Path = Path (routes ! i), To = To (routes ! i)\<rparr>)"
  using routeLoop_nomatch routeLoop_last by blast

theorem route_matching_last_wins_witness:
  "MatchRoute exampleUtil ''/users/:id'' ''/users/me''
   \<and> MatchRoute exampleUtil ''/users/me'' ''/users/me''
   \<and> routeLoop exampleUtil
        [\<lparr>Path = ''/users/:id'', To = ''/user.html''\<rparr>, \<lparr>Path = ''/users/me'', To = ''/me.html''\<rparr>]
        ''/users/me'' \<lparr>Path = ''/users/me'', To = ''/users/me''\<rparr>
      = \<lparr>Path = ''/users/me'', To = ''/me.html''\<rparr>"
proof -
  let ?rs = "[\<lparr>Path = ''/users/:id'', To = ''/user.html''\<rparr>, \<lparr>Path = ''/users/me'', To = ''/me.html''\<rparr>]"
  have m1: "MatchRoute exampleUtil ''/users/:id'' ''/users/me''"
    by (simp add: exampleUtil_def MatchRoute_spec_def HasPrefix_def)
  have m2: "MatchRoute exampleUtil ''/users/me'' ''/users/me''"
    by (simp add: exampleUtil_def MatchRoute_spec_def HasPrefix_def)
  have last: "(1::nat) < length ?rs \<and> MatchRoute exampleUtil (Path (?rs ! 1)) ''/users/me''
      \<and> (\<forall>j. 1 < j \<and> j < length ?rs \<longrightarrow> \<not> MatchRoute exampleUtil (Path (?rs ! j)) ''/users/me'')"
    using m2 by simp
  from route_matching_last_wins
         [where routes = ?rs and U = exampleUtil and p = "''/users/me''"
            and route = "\<lparr>Path = ''/users/me'', To = ''/users/me''\<rparr>"]
  have "\<forall>i. i < length ?rs \<and> MatchRoute exampleUtil (Path (?rs ! i)) ''/users/me''
          \<and> (\<forall>j. i < j \<and> j < length ?rs \<longrightarrow> \<not> MatchRoute exampleUtil (Path (?rs ! j)) ''/users/me'')
        \<longrightarrow> routeLoop exampleUtil ?rs ''/users/me'' \<lparr>Path = ''/users/me'', To = ''/users/me''\<rparr>
            = \<lparr>Path = Path (?rs ! i), To = To (?rs ! i)\<rparr>"
    by (rule conjunct2)
  then have "routeLoop exampleUtil ?rs ''/users/me'' \<lparr>Path = ''/users/me'', To = ''/users/me''\<rparr>
            = \<lparr>Path = Path (?rs ! 1), To = To (?rs ! 1)\<rparr>"
    using last by blast
  then show ?thesis using m1 m2 by simp
qed

section \<open>The request resolver\<close>

lemma resolveRoute_unfold:
  "resolveRoute W U s r =
     (let t0 = (if URL_Path r = ''/'' then ''/index.html'' else URL_Path r);
          ext = Ext t0;
          prefix = TrimSuffix t0 ext;
          short = prefix @ ''_'' @ GetLangShort U r @ ext;
          full = prefix @ ''_'' @ GetLang U r @ ext;
          t1 = (if Stat W (Join W (Root (cfg s)) short) = None then short
                else if Stat W (Join W (Root (cfg s)) full) = None then full else t0)
      in (ext, routeLoop U (Routes (cfg s)) (URL_Path r) \<lparr>Path = URL_Path r, To = t1\<rparr>))"
  by (simp add: resolveRoute_def Let_def)

lemma resolveRoute_ext:
  "fst (resolveRoute W U s r) = Ext (if URL_Path r = ''/'' then ''/index.html'' else URL_Path r)"
  by (simp add: resolveRoute_unfold Let_def)

text \<open>
  Claim C3. In the resolver the locale probe comes first: the target becomes
  \<open>prefix_short.ext\<close> when that file exists, else \<open>prefix_full.ext\<close> when that one
  exists, else it stays the request path (the index document for \<open>/\<close>). Route matching
  comes second and tests the request path \<open>r.URL.Path\<close>, not the substituted target. So
  when no route matches the result is the locale-substituted target, and when a route
  matches both path and target are those of the last matching route, whatever the probe
  found.
\<close>

theorem locale_probe_then_route_match:
  "(let t0 = (if URL_Path r = ''/'' then ''/index.html'' else URL_Path r);
        ext = Ext t0;
        prefix = TrimSuffix t0 ext;
        short = prefix @ ''_'' @ GetLangShort U r @ ext;
        full = prefix @ ''_'' @ GetLang U r @ ext;
        routes = Routes (cfg s)
    in ((\<forall>c \<in> set routes. \<not> MatchRoute U (Path c) (URL_Path r)) \<longrightarrow>
          snd (resolveRoute W U s r) =
            \<lparr>Path = URL_Path r,
             To = (if Stat W (Join W (Root (cfg s)) short) = None then short
                   else if Stat W (Join W (Root (cfg s)) full) = None then full else t0)\<rparr>)
     \<and> (\<forall>i. i < length routes \<and> MatchRoute U (Path (routes ! i)) (URL_Path r)
            \<and> (\<forall>j. i < j \<and> j < length routes \<longrightarrow> \<not> MatchRoute U (Path (routes ! j)) (URL_Path r))
          \<longrightarrow> snd (resolveRoute W U s r) = \<lparr>Path = Path (routes ! i), To = To (routes ! i)\<rparr>))"
  unfolding Let_def
  by (intro conjI impI allI)
     (simp_all add: resolveRoute_unfold Let_def routeLoop_nomatch routeLoop_last)

theorem locale_probe_then_route_match_witness:
  "snd (resolveRoute (exampleWorld [''www/about_zh.html'', ''www/about_zh-CN.html'']) exampleUtil
          (exampleServer [] [] [])
          (exampleRequest ''/about.html'' [''Accept-Language'' \<mapsto> ''zh-CN'']))
     = \<lparr>Path = ''/about.html'', To = ''/about_zh.html''\<rparr>
   \<and> MatchRoute exampleUtil ''/about.html'' ''/about.html''
   \<and> snd (resolveRoute (exampleWorld [''www/about_zh.html'', ''www/about_zh-CN.html'']) exampleUtil
          (exampleServer [\<lparr>Path = ''/about.html'', To = ''/info.html''\<rparr>] [] [])
          (exampleRequest ''/about.html'' [''Accept-Language'' \<mapsto> ''zh-CN'']))
     = \<lparr>Path = ''/about.html'', To = ''/info.html''\<rparr>"
proof -
  let ?W = "exampleWorld [''www/about_zh.html'', ''www/about_zh-CN.html'']"
  let ?r = "exampleRequest ''/about.html'' [''Accept-Language'' \<mapsto> ''zh-CN'']"
  let ?s0 = "exampleServer [] [] []"
  let ?s1 = "exampleServer [\<lparr>Path = ''/about.html'', To = ''/info.html''\<rparr>] [] []"
  have ext: "Ext ''/about.html'' = ''.html''"
    by (simp add: Ext_def)
  have pre: "TrimSuffix ''/about.html'' ''.html'' = ''/about''"
    by (simp add: TrimSuffix_def HasSuffix_def)
  have m: "MatchRoute exampleUtil ''/about.html'' ''/about.html''"
    by (simp add: exampleUtil_def MatchRoute_spec_def HasPrefix_def)
  have none: "\<forall>c \<in> set (Routes (cfg ?s0)). \<not> MatchRoute exampleUtil (Path c) (URL_Path ?r)"
    by (simp add: exampleServer_def exampleConfig_def)
  have a: "snd (resolveRoute ?W exampleUtil ?s0 ?r) = \<lparr>Path = ''/about.html'', To = ''/about_zh.html''\<rparr>"
    using locale_probe_then_route_match [of ?r exampleUtil ?s0 ?W] none
    by (simp add: Let_def ext pre exampleRequest_def exampleServer_def exampleConfig_def
          exampleWorld_def exampleUtil_def)
  have hit: "0 < length (Routes (cfg ?s1))
      \<and> MatchRoute exampleUtil (Path (Routes (cfg ?s1) ! 0)) (URL_Path ?r)
      \<and> (\<forall>j. 0 < j \<and> j < length (Routes (cfg ?s1))
            \<longrightarrow> \<not> MatchRoute exampleUtil (Path (Routes (cfg ?s1) ! j)) (URL_Path ?r))"
    using m by (auto simp: exampleServer_def exampleConfig_def exampleRequest_def)
  have "\<forall>i. i < length (Routes (cfg ?s1))
      \<and> MatchRoute exampleUtil (Path (Routes (cfg ?s1) ! i)) (URL_Path ?r)
      \<and> (\<forall>j. i < j \<and> j < length (Routes (cfg ?s1))
            \<longrightarrow> \<not> MatchRoute exampleUtil (Path (Routes (cfg ?s1) ! j)) (URL_Path ?r))
      \<longrightarrow> snd (resolveRoute ?W exampleUtil ?s1 ?r)
          = \<lparr>Path = Path (Routes (cfg ?s1) ! i), To = To (Routes (cfg ?s1) ! i)\<rparr>"
    using locale_probe_then_route_match [of ?r exampleUtil ?s1 ?W]
    unfolding Let_def by (rule conjunct2)
  with hit have "snd (resolveRoute ?W exampleUtil ?s1 ?r)
          = \<lparr>Path = Path (Routes (cfg ?s1) ! 0), To = To (Routes (cfg ?s1) ! 0)\<rparr>"
    by blast
  then have b: "snd (resolveRoute ?W exampleUtil ?s1 ?r) = \<lparr>Path = ''/about.html'', To = ''/info.html''\<rparr>"
    by (simp add: exampleServer_def exampleConfig_def)
  from a m b show ?thesis by simp
qed

section \<open>The handler\<close>

lemma blackLoop_set: "blackLoop bs p = (p \<in> set bs)"
  by (induction bs) auto

lemma headers_emit: "headers (emit w a) = headers w"
  by (simp add: emit_def)

lemma written_emit: "written (emit w a) = written w @ [a]"
  by (simp add: emit_def)

lemma written_Header_Set: "written (Header_Set w k x) = written w"
  by (simp add: Header_Set_def)

lemma ServeHTTP_passed:
  assumes "runPrehandlers (prehandlers s) w r = (False, w', r')"
  shows "ServeHTTP W U s w r =
     (if URL_Path r' \<in> set (BlackList (cfg s)) \<union> set (InternalBlackList (cfg s))
      then NotFound w'
      else if Ext (if URL_Path r' = ''/'' then ''/index.html'' else URL_Path r') = ''.html''
      then renderTemplate W U s
             (if Contains (Header_Get r' ''Accept-Encoding'') ''gzip''
              then Header_Set (Header_Set w' ''Content-Type'' ''text/html'') ''Content-Encoding'' ''gzip''
              else Header_Set w' ''Content-Type'' ''text/html'')
             r' (snd (resolveRoute W U s r'))
      else serveStatic W U s w' r'
             (Ext (if URL_Path r' = ''/'' then ''/index.html'' else URL_Path r'))
             (snd (resolveRoute W U s r')))"
proof -
  obtain ext route where rr: "resolveRoute W U s r' = (ext, route)"
    by (cases "resolveRoute W U s r'")
  then have ext: "ext = Ext (if URL_Path r' = ''/'' then ''/index.html'' else URL_Path r')"
    using resolveRoute_ext [of W U s r'] by simp
  show ?thesis
    unfolding ServeHTTP_def assms
    by (simp add: blackLoop_set rr Let_def ext [symmetric])
qed

lemma serveStatic_written:
  "\<exists>p. written (serveStatic W U s w r ext route) = written w @ [HttpServeFile p]"
  by (simp add: serveStatic_def Let_def written_emit written_Header_Set)

lemma renderTemplate_written:
  "\<exists>acts. written (renderTemplate W U s w r route) = written w @ acts
      \<and> (\<forall>p. HttpServeFile p \<notin> set acts)"
proof -
  have one: "\<And>a. (\<forall>p. a \<noteq> HttpServeFile p) \<Longrightarrow>
      \<exists>acts. written (emit w a) = written w @ acts \<and> (\<forall>p. HttpServeFile p \<notin> set acts)"
    by (rule exI [of _ "[_]"]) (auto simp: written_emit)
  have two: "\<And>a b. (\<forall>p. a \<noteq> HttpServeFile p) \<Longrightarrow> (\<forall>p. b \<noteq> HttpServeFile p) \<Longrightarrow>
      \<exists>acts. written (emit (emit w a) b) = written w @ acts \<and> (\<forall>p. HttpServeFile p \<notin> set acts)"
    by (rule exI [of _ "[_, _]"]) (auto simp: written_emit)
  show ?thesis
    unfolding renderTemplate_def NotFound_def
    by (auto split: prod.splits option.splits intro!: one two)
qed

lemma renderTemplate_headers: "headers (renderTemplate W U s w r route) = headers w"
  by (simp add: renderTemplate_def NotFound_def headers_emit split: prod.splits option.splits)

lemma set_Strs_sel:
  "InternalBlackList (set_Strs v m) = InternalBlackList v"
  "Host (set_Strs v m) = Host v" "Port (set_Strs v m) = Port v"
  "Routes (set_Strs v m) = Routes v" "NotFoundPage (set_Strs v m) = NotFoundPage v"
  "BlackList (set_Strs v m) = BlackList v" "ApiServer (set_Strs v m) = ApiServer v"
  "Envs (set_Strs v m) = Envs v" "Lang (set_Strs v m) = Lang v"
  "Root (set_Strs v m) = Root v" "Env (set_Strs v m) = Env v"
  "Strs (set_Strs v m) = m"
  by (simp_all add: set_Strs_def)

lemma langCheck_cases:
  "fst (langCheck W U v) = v \<or> (\<exists>m. fst (langCheck W U v) = set_Strs v m)"
  by (auto simp: langCheck_def Let_def split: sum.splits prod.splits option.splits)



lemma handleEnvs_no_env: "handleEnvs U [] v = (v, None)"
  by (simp add: handleEnvs_def split: option.splits)








text \<open>
  Claim C4. Take a request that the pre-handlers let through and that is not blacklisted,
  whose extension is not \<open>.html\<close> and is eligible for image-format substitution, and
  whose \<open>Accept\<close> header contains \<open>webp\<close>. When the file named by the resolved target
  plus \<open>.webp\<close> exists, the handler serves exactly that file and returns: it sets no
  header, whatever the \<open>Accept-Encoding\<close> header, the compression eligibility and the
  files with suffix \<open>.gzip\<close> are.
\<close>

theorem webp_substitution_terminates:
  assumes "runPrehandlers (prehandlers s) w r = (False, w', r')"
    and "URL_Path r' \<notin> set (BlackList (cfg s)) \<union> set (InternalBlackList (cfg s))"
    and "ext = Ext (if URL_Path r' = ''/'' then ''/index.html'' else URL_Path r')"
    and "ext \<noteq> ''.html''"
    and "ShouldCWebp U ext"
    and "Contains (Header_Get r' ''Accept'') ''webp''"
    and "path = Join W (Root (cfg s)) (To (snd (resolveRoute W U s r')))"
    and "Stat W (path @ ''.webp'') = None"
  shows "ServeHTTP W U s w r = w'\<lparr>written := written w' @ [HttpServeFile (path @ ''.webp'')]\<rparr>"
  using assms by (simp add: ServeHTTP_passed serveStatic_def Let_def emit_def)

theorem webp_substitution_terminates_witness:
  "ShouldCWebp (exampleUtil\<lparr>ShouldGZip := \<lambda>e. True\<rparr>) ''.png''
   \<and> ShouldGZip (exampleUtil\<lparr>ShouldGZip := \<lambda>e. True\<rparr>) ''.png''
   \<and> ServeHTTP (exampleWorld [''www/img/logo.png'', ''www/img/logo.png.webp'', ''www/img/logo.png.gzip''])
        (exampleUtil\<lparr>ShouldGZip := \<lambda>e. True\<rparr>) (exampleServer [] [] []) emptyWriter
        (exampleRequest ''/img/logo.png'' [''Accept'' \<mapsto> ''image/webp'', ''Accept-Encoding'' \<mapsto> ''gzip''])
     = \<lparr>headers = Map.empty, written = [HttpServeFile ''www/img/logo.png.webp'']\<rparr>"
proof -
  let ?U = "exampleUtil\<lparr>ShouldGZip := \<lambda>e. True\<rparr>"
  let ?W = "exampleWorld [''www/img/logo.png'', ''www/img/logo.png.webp'', ''www/img/logo.png.gzip'']"
  let ?s = "exampleServer [] [] []"
  let ?r = "exampleRequest ''/img/logo.png'' [''Accept'' \<mapsto> ''image/webp'', ''Accept-Encoding'' \<mapsto> ''gzip'']"
  have pre: "runPrehandlers (prehandlers ?s) emptyWriter ?r = (False, emptyWriter, ?r)"
    by (simp add: exampleServer_def)
  have nb: "URL_Path ?r \<notin> set (BlackList (cfg ?s)) \<union> set (InternalBlackList (cfg ?s))"
    by (simp add: exampleServer_def exampleConfig_def exampleRequest_def CONFIG_FILE_NAME_def)
  have ext: "''.png'' = Ext (if URL_Path ?r = ''/'' then ''/index.html'' else URL_Path ?r)"
    by (simp add: exampleRequest_def Ext_def)
  have webp: "ShouldCWebp ?U ''.png''"
    by (simp add: exampleUtil_def)
  have gz: "ShouldGZip ?U ''.png''"
    by simp
  have acc: "Contains (Header_Get ?r ''Accept'') ''webp''"
    by (simp add: exampleRequest_def HasPrefix_def)
  have rr: "snd (resolveRoute ?W ?U ?s ?r) = \<lparr>Path = ''/img/logo.png'', To = ''/img/logo.png''\<rparr>"
    using ext [symmetric]
    by (simp add: resolveRoute_unfold Let_def exampleRequest_def exampleServer_def exampleConfig_def
          exampleWorld_def exampleUtil_def TrimSuffix_def HasSuffix_def)
  have path: "''www/img/logo.png'' = Join ?W (Root (cfg ?s)) (To (snd (resolveRoute ?W ?U ?s ?r)))"
    by (simp add: rr) (simp add: exampleWorld_def exampleServer_def exampleConfig_def)
  have st: "Stat ?W (''www/img/logo.png'' @ ''.webp'') = None"
    by (simp add: exampleWorld_def)
  have "ServeHTTP ?W ?U ?s emptyWriter ?r
      = emptyWriter\<lparr>written := written emptyWriter @ [HttpServeFile (''www/img/logo.png'' @ ''.webp'')]\<rparr>"
    using pre nb ext _ webp acc path st by (rule webp_substitution_terminates) simp
  then show ?thesis using webp gz by (simp add: emptyWriter_def)
qed

text \<open>
  Claim C10. For a request that the pre-handlers let through and that is not blacklisted,
  the extension that chooses the branch is the extension of the request path (of the index
  document for \<open>/\<close>), taken before the locale probe and the route loop. When it is not
  \<open>.html\<close> the handler is the static branch, run with that same extension for the webp
  and gzip tests and with the route-rewritten target as the file: its whole effect is one
  \<open>http.ServeFile\<close>, so a route from such a path to a target ending in \<open>.html\<close> is
  served as a file and no template runs. When it is \<open>.html\<close> the handler sets the
  content type \<open>text/html\<close> and renders the template named by the route-rewritten target,
  whatever the extension of that target, and never calls \<open>http.ServeFile\<close>.
\<close>

theorem branch_decided_by_request_extension:
  assumes "runPrehandlers (prehandlers s) w r = (False, w', r')"
    and "URL_Path r' \<notin> set (BlackList (cfg s)) \<union> set (InternalBlackList (cfg s))"
  shows
    "(let ext0 = Ext (if URL_Path r' = ''/'' then ''/index.html'' else URL_Path r');
          route = snd (resolveRoute W U s r');
          wh = (if Contains (Header_Get r' ''Accept-Encoding'') ''gzip''
                then Header_Set (Header_Set w' ''Content-Type'' ''text/html'') ''Content-Encoding'' ''gzip''
                else Header_Set w' ''Content-Type'' ''text/html'')
      in (ext0 \<noteq> ''.html'' \<longrightarrow>
            ServeHTTP W U s w r = serveStatic W U s w' r' ext0 route
            \<and> (\<exists>p. written (ServeHTTP W U s w r) = written w' @ [HttpServeFile p]))
       \<and> (ext0 = ''.html'' \<longrightarrow>
            ServeHTTP W U s w r = renderTemplate W U s wh r' route
            \<and> headers (ServeHTTP W U s w r) ''Content-Type'' = Some ''text/html''
            \<and> (\<exists>acts. written (ServeHTTP W U s w r) = written w' @ acts
                  \<and> (\<forall>p. HttpServeFile p \<notin> set acts))))"
proof -
  let ?ext0 = "Ext (if URL_Path r' = ''/'' then ''/index.html'' else URL_Path r')"
  let ?route = "snd (resolveRoute W U s r')"
  let ?wh = "if Contains (Header_Get r' ''Accept-Encoding'') ''gzip''
             then Header_Set (Header_Set w' ''Content-Type'' ''text/html'') ''Content-Encoding'' ''gzip''
             else Header_Set w' ''Content-Type'' ''text/html''"
  have static: "ServeHTTP W U s w r = serveStatic W U s w' r' ?ext0 ?route" if "?ext0 \<noteq> ''.html''"
    using assms that by (simp add: ServeHTTP_passed)
  have render: "ServeHTTP W U s w r = renderTemplate W U s ?wh r' ?route" if "?ext0 = ''.html''"
    using assms that by (simp add: ServeHTTP_passed)
  have served: "\<exists>p. written (ServeHTTP W U s w r) = written w' @ [HttpServeFile p]"
    if "?ext0 \<noteq> ''.html''"
    using static [OF that] serveStatic_written [of W U s w' r' ?ext0 ?route] by simp
  have wh_written: "written ?wh = written w'"
    by (simp add: written_Header_Set)
  have wh_ct: "headers ?wh ''Content-Type'' = Some ''text/html''"
    by (simp add: Header_Set_def)
  have ct: "headers (ServeHTTP W U s w r) ''Content-Type'' = Some ''text/html''"
    if "?ext0 = ''.html''"
    using render [OF that] wh_ct by (simp only: renderTemplate_headers)
  have nofile: "\<exists>acts. written (ServeHTTP W U s w r) = written w' @ acts
                  \<and> (\<forall>p. HttpServeFile p \<notin> set acts)"
    if "?ext0 = ''.html''"
    using render [OF that] renderTemplate_written [of W U s ?wh r' ?route] wh_written
    by (simp only:)
  show ?thesis
    unfolding Let_def using static render served ct nofile by blast
qed

theorem branch_decided_by_request_extension_witness:
  "MatchRoute exampleUtil ''/about'' ''/about''
   \<and> ServeHTTP (exampleWorld [''www/about.html'']) exampleUtil
        (exampleServer [\<lparr>Path = ''/about'', To = ''/about.html''\<rparr>] [] []) emptyWriter
        (exampleRequest ''/about'' Map.empty)
     = \<lparr>headers = Map.empty, written = [HttpServeFile ''www/about.html'']\<rparr>
   \<and> MatchRoute exampleUtil ''/data.html'' ''/data.html''
   \<and> ServeHTTP (exampleWorld [''www/data.json'']) exampleUtil
        (exampleServer [\<lparr>Path = ''/data.html'', To = ''/data.json''\<rparr>] [] []) emptyWriter
        (exampleRequest ''/data.html'' Map.empty)
     = \<lparr>headers = [''Content-Type'' \<mapsto> ''text/html''], written = [Write ''</data.json>'']\<rparr>"
proof -
  let ?W1 = "exampleWorld [''www/about.html'']"
  let ?s1 = "exampleServer [\<lparr>Path = ''/about'', To = ''/about.html''\<rparr>] [] []"
  let ?r1 = "exampleRequest ''/about'' Map.empty"
  let ?W2 = "exampleWorld [''www/data.json'']"
  let ?s2 = "exampleServer [\<lparr>Path = ''/data.html'', To = ''/data.json''\<rparr>] [] []"
  let ?r2 = "exampleRequest ''/data.html'' Map.empty"
  have m1: "MatchRoute exampleUtil ''/about'' ''/about''"
    by (simp add: exampleUtil_def MatchRoute_spec_def HasPrefix_def)
  have m2: "MatchRoute exampleUtil ''/data.html'' ''/data.html''"
    by (simp add: exampleUtil_def MatchRoute_spec_def HasPrefix_def)
  have pre1: "runPrehandlers (prehandlers ?s1) emptyWriter ?r1 = (False, emptyWriter, ?r1)"
    by (simp add: exampleServer_def)
  have nb1: "URL_Path ?r1 \<notin> set (BlackList (cfg ?s1)) \<union> set (InternalBlackList (cfg ?s1))"
    by (simp add: exampleServer_def exampleConfig_def exampleRequest_def CONFIG_FILE_NAME_def)
  have ext1: "Ext (if URL_Path ?r1 = ''/'' then ''/index.html'' else URL_Path ?r1) = []"
    by (simp add: exampleRequest_def Ext_def)
  have rr1: "snd (resolveRoute ?W1 exampleUtil ?s1 ?r1) = \<lparr>Path = ''/about'', To = ''/about.html''\<rparr>"
    using m1 ext1
    by (simp add: resolveRoute_unfold Let_def exampleRequest_def exampleServer_def exampleConfig_def
          exampleWorld_def TrimSuffix_def HasSuffix_def)
  have "ServeHTTP ?W1 exampleUtil ?s1 emptyWriter ?r1
      = serveStatic ?W1 exampleUtil ?s1 emptyWriter ?r1 [] \<lparr>Path = ''/about'', To = ''/about.html''\<rparr>"
    using branch_decided_by_request_extension [OF pre1 nb1, of ?W1 exampleUtil]
    by (simp add: Let_def ext1 rr1)
  then have a: "ServeHTTP ?W1 exampleUtil ?s1 emptyWriter ?r1
      = \<lparr>headers = Map.empty, written = [HttpServeFile ''www/about.html'']\<rparr>"
    by (simp add: serveStatic_def Let_def exampleUtil_def exampleWorld_def exampleServer_def
          exampleConfig_def emit_def emptyWriter_def)
  have pre2: "runPrehandlers (prehandlers ?s2) emptyWriter ?r2 = (False, emptyWriter, ?r2)"
    by (simp add: exampleServer_def)
  have nb2: "URL_Path ?r2 \<notin> set (BlackList (cfg ?s2)) \<union> set (InternalBlackList (cfg ?s2))"
    by (simp add: exampleServer_def exampleConfig_def exampleRequest_def CONFIG_FILE_NAME_def)
  have ext2: "Ext (if URL_Path ?r2 = ''/'' then ''/index.html'' else URL_Path ?r2) = ''.html''"
    by (simp add: exampleRequest_def Ext_def)
  have rr2: "snd (resolveRoute ?W2 exampleUtil ?s2 ?r2) = \<lparr>Path = ''/data.html'', To = ''/data.json''\<rparr>"
    using m2 ext2
    by (simp add: resolveRoute_unfold Let_def exampleRequest_def exampleServer_def exampleConfig_def
          exampleWorld_def TrimSuffix_def HasSuffix_def)
  have acc2: "\<not> Contains (Header_Get ?r2 ''Accept-Encoding'') ''gzip''"
    by (simp add: exampleRequest_def)
  have "ServeHTTP ?W2 exampleUtil ?s2 emptyWriter ?r2
      = renderTemplate ?W2 exampleUtil ?s2 (Header_Set emptyWriter ''Content-Type'' ''text/html'') ?r2
          \<lparr>Path = ''/data.html'', To = ''/data.json''\<rparr>"
    using branch_decided_by_request_extension [OF pre2 nb2, of ?W2 exampleUtil]
    by (simp add: Let_def ext2 rr2 acc2)
  then have b: "ServeHTTP ?W2 exampleUtil ?s2 emptyWriter ?r2
      = \<lparr>headers = [''Content-Type'' \<mapsto> ''text/html''], written = [Write ''</data.json>'']\<rparr>"
    using acc2
    by (simp add: renderTemplate_def exampleUtil_def emit_def Header_Set_def emptyWriter_def)
  from m1 a m2 b show ?thesis by simp
qed

section \<open>NewServer\<close>

lemma checkRoutes_distinct:
  "distinct (map (\<lambda>x. FormatParam U (Path x)) rs) \<Longrightarrow>
   \<forall>x \<in> set rs. checked (FormatParam U (Path x)) = None \<Longrightarrow>
   checkRoutes U rs checked = None"
proof (induction rs arbitrary: checked)
  case Nil
  then show ?case by simp
next
  case (Cons x rs)
  have "checkRoutes U rs (checked(FormatParam U (Path x) \<mapsto> Path x)) = None"
  proof (rule Cons.IH)
    show "distinct (map (\<lambda>x. FormatParam U (Path x)) rs)"
      using Cons.prems(1) by simp
    show "\<forall>y \<in> set rs. (checked(FormatParam U (Path x) \<mapsto> Path x)) (FormatParam U (Path y)) = None"
      using Cons.prems by (auto simp: image_iff)
  qed
  then show ?case using Cons.prems(2) by (simp add: Let_def)
qed

text \<open>
  The invariant of the loop: \<open>checked\<close> holds, under its shape, the path of each route
  seen so far (\<open>pre\<close>), and nothing else.
\<close>

lemma checkRoutes_clash:
  assumes "\<forall>k x. checked k = Some x \<longrightarrow>
             (\<exists>i < length pre. FormatParam U (Path (pre ! i)) = k \<and> Path (pre ! i) = x)"
    and "\<forall>y \<in> set pre. checked (FormatParam U (Path y)) \<noteq> None"
    and "distinct (map (\<lambda>x. FormatParam U (Path x)) pre)"
    and "\<not> distinct (map (\<lambda>x. FormatParam U (Path x)) (pre @ rs))"
  shows "\<exists>i j. i < j \<and> j < length (pre @ rs)
           \<and> FormatParam U (Path ((pre @ rs) ! i)) = FormatParam U (Path ((pre @ rs) ! j))
           \<and> checkRoutes U rs checked =
               Some (New (''Duplicate route path: '' @ q @ Path ((pre @ rs) ! j) @ q
                          @ '' with '' @ q @ Path ((pre @ rs) ! i) @ q))"
  using assms
proof (induction rs arbitrary: pre checked)
  case Nil
  then show ?case by simp
next
  case (Cons x rs)
  let ?f = "FormatParam U (Path x)"
  show ?case
  proof (cases "checked ?f")
    case (Some e)
    then obtain i where i: "i < length pre" "FormatParam U (Path (pre ! i)) = ?f" "Path (pre ! i) = e"
      using Cons.prems(1) by blast
    have "i < length pre \<and> length pre < length (pre @ x # rs)
        \<and> FormatParam U (Path ((pre @ x # rs) ! i)) = FormatParam U (Path ((pre @ x # rs) ! length pre))
        \<and> checkRoutes U (x # rs) checked =
            Some (New (''Duplicate route path: '' @ q @ Path ((pre @ x # rs) ! length pre) @ q
                       @ '' with '' @ q @ Path ((pre @ x # rs) ! i) @ q))"
      using i Some by (simp add: nth_append Let_def)
    then show ?thesis by blast
  next
    case None
    let ?pre = "pre @ [x]" and ?checked = "checked(?f \<mapsto> Path x)"
    have fresh: "?f \<notin> (\<lambda>y. FormatParam U (Path y)) ` set pre"
      using None Cons.prems(2) by auto
    have inv1: "\<forall>k y. ?checked k = Some y \<longrightarrow>
             (\<exists>i < length ?pre. FormatParam U (Path (?pre ! i)) = k \<and> Path (?pre ! i) = y)"
    proof (intro allI impI)
      fix k y assume ky: "?checked k = Some y"
      show "\<exists>i < length ?pre. FormatParam U (Path (?pre ! i)) = k \<and> Path (?pre ! i) = y"
      proof (cases "k = ?f")
        case True
        with ky have "y = Path x" by simp
        with True have "length pre < length ?pre
            \<and> FormatParam U (Path (?pre ! length pre)) = k \<and> Path (?pre ! length pre) = y"
          by simp
        then show ?thesis by blast
      next
        case False
        with ky have "checked k = Some y" by simp
        then obtain i where "i < length pre" "FormatParam U (Path (pre ! i)) = k" "Path (pre ! i) = y"
          using Cons.prems(1) by blast
        then have "i < length ?pre \<and> FormatParam U (Path (?pre ! i)) = k \<and> Path (?pre ! i) = y"
          by (simp add: nth_append)
        then show ?thesis by blast
      qed
    qed
    have inv2: "\<forall>y \<in> set ?pre. ?checked (FormatParam U (Path y)) \<noteq> None"
      using Cons.prems(2) by auto
    have inv3: "distinct (map (\<lambda>x. FormatParam U (Path x)) ?pre)"
      using Cons.prems(3) fresh by simp
    have inv4: "\<not> distinct (map (\<lambda>x. FormatParam U (Path x)) (?pre @ rs))"
      using Cons.prems(4) by simp
    have step: "checkRoutes U (x # rs) checked = checkRoutes U rs ?checked"
      using None by (simp add: Let_def)
    from Cons.IH [OF inv1 inv2 inv3 inv4] show ?thesis
      by (simp only: step append_assoc append_Cons append_Nil)
  qed
qed

text \<open>
  Claim C7. \<open>NewServer\<close> checks the routes before it returns a server. When no two routes
  have the same parameterized shape it returns the server, with the configuration as
  given and no pre-handler. When two routes have the same shape it returns no server but
  an error whose message names the paths of two routes of equal shape, the later one
  first.
\<close>

theorem NewServer_route_uniqueness:
  "(distinct (map (\<lambda>x. FormatParam U (Path x)) (Routes c)) \<longrightarrow>
      NewServer U c isProd =
        Inr \<lparr>HTTPServer = \<lparr>Addr = Host c @ '':'' @ Itoa (Port c)\<rparr>, cfg = c,
             prehandlers = [], isProduction = isProd\<rparr>)
   \<and> (\<not> distinct (map (\<lambda>x. FormatParam U (Path x)) (Routes c)) \<longrightarrow>
      (\<exists>i j. i < j \<and> j < length (Routes c)
         \<and> FormatParam U (Path (Routes c ! i)) = FormatParam U (Path (Routes c ! j))
         \<and> NewServer U c isProd =
             Inl (New (''Duplicate route path: '' @ q @ Path (Routes c ! j) @ q
                       @ '' with '' @ q @ Path (Routes c ! i) @ q))))"
proof (intro conjI impI)
  assume "distinct (map (\<lambda>x. FormatParam U (Path x)) (Routes c))"
  then have "checkRoutes U (Routes c) Map.empty = None"
    by (rule checkRoutes_distinct) simp
  then show "NewServer U c isProd =
        Inr \<lparr>HTTPServer = \<lparr>Addr = Host c @ '':'' @ Itoa (Port c)\<rparr>, cfg = c,
             prehandlers = [], isProduction = isProd\<rparr>"
    by (simp add: NewServer_def)
next
  assume dup: "\<not> distinct (map (\<lambda>x. FormatParam U (Path x)) (Routes c))"
  have "\<exists>i j. i < j \<and> j < length ([] @ Routes c)
           \<and> FormatParam U (Path (([] @ Routes c) ! i)) = FormatParam U (Path (([] @ Routes c) ! j))
           \<and> checkRoutes U (Routes c) Map.empty =
               Some (New (''Duplicate route path: '' @ q @ Path (([] @ Routes c) ! j) @ q
                          @ '' with '' @ q @ Path (([] @ Routes c) ! i) @ q))"
    by (rule checkRoutes_clash) (use dup in simp_all)
  then obtain i j where ij: "i < j" "j < length (Routes c)"
      "FormatParam U (Path (Routes c ! i)) = FormatParam U (Path (Routes c ! j))"
      "checkRoutes U (Routes c) Map.empty =
         Some (New (''Duplicate route path: '' @ q @ Path (Routes c ! j) @ q
                    @ '' with '' @ q @ Path (Routes c ! i) @ q))"
    by auto
  from ij(4) have "NewServer U c isProd =
      Inl (New (''Duplicate route path: '' @ q @ Path (Routes c ! j) @ q
                @ '' with '' @ q @ Path (Routes c ! i) @ q))"
    by (simp add: NewServer_def)
  with ij(1-3) show "\<exists>i j. i < j \<and> j < length (Routes c)
         \<and> FormatParam U (Path (Routes c ! i)) = FormatParam U (Path (Routes c ! j))
         \<and> NewServer U c isProd =
             Inl (New (''Duplicate route path: '' @ q @ Path (Routes c ! j) @ q
                       @ '' with '' @ q @ Path (Routes c ! i) @ q))"
    by blast
qed

theorem NewServer_route_uniqueness_witness:
  "distinct (map (\<lambda>x. FormatParam exampleUtil (Path x))
       [\<lparr>Path = ''/users/:id'', To = ''/user.html''\<rparr>, \<lparr>Path = ''/posts/:id'', To = ''/post.html''\<rparr>])
   \<and> NewServer exampleUtil
        (exampleConfig [\<lparr>Path = ''/users/:id'', To = ''/user.html''\<rparr>,
                        \<lparr>Path = ''/posts/:id'', To = ''/post.html''\<rparr>] []) False
     = Inr (exampleServer [\<lparr>Path = ''/users/:id'', To = ''/user.html''\<rparr>,
                           \<lparr>Path = ''/posts/:id'', To = ''/post.html''\<rparr>] [] [])
   \<and> \<not> distinct (map (\<lambda>x. FormatParam exampleUtil (Path x))
       [\<lparr>Path = ''/users/:id'', To = ''/user.html''\<rparr>, \<lparr>Path = ''/users/:name'', To = ''/name.html''\<rparr>])
   \<and> NewServer exampleUtil
        (exampleConfig [\<lparr>Path = ''/users/:id'', To = ''/user.html''\<rparr>,
                        \<lparr>Path = ''/users/:name'', To = ''/name.html''\<rparr>] []) False
     = Inl (New (''Duplicate route path: '' @ q @ ''/users/:name'' @ q @ '' with '' @ q @ ''/users/:id'' @ q))"
proof -
  let ?ok = "[\<lparr>Path = ''/users/:id'', To = ''/user.html''\<rparr>, \<lparr>Path = ''/posts/:id'', To = ''/post.html''\<rparr>]"
  let ?bad = "[\<lparr>Path = ''/users/:id'', To = ''/user.html''\<rparr>, \<lparr>Path = ''/users/:name'', To = ''/name.html''\<rparr>]"
  have f1: "FormatParam exampleUtil ''/users/:id'' = ''/users/:''"
    by (simp add: exampleUtil_def FormatParam_spec_def HasPrefix_def)
  have f2: "FormatParam exampleUtil ''/posts/:id'' = ''/posts/:''"
    by (simp add: exampleUtil_def FormatParam_spec_def HasPrefix_def)
  have f3: "FormatParam exampleUtil ''/users/:name'' = ''/users/:''"
    by (simp add: exampleUtil_def FormatParam_spec_def HasPrefix_def)
  have port: "Itoa 8080 = ''8080''"
    by (simp add: Itoa_def)
  have d1: "distinct (map (\<lambda>x. FormatParam exampleUtil (Path x)) (Routes (exampleConfig ?ok [])))"
    by (simp add: exampleConfig_def f1 f2)
  have d2: "\<not> distinct (map (\<lambda>x. FormatParam exampleUtil (Path x)) (Routes (exampleConfig ?bad [])))"
    by (simp add: exampleConfig_def f1 f3)
  have "NewServer exampleUtil (exampleConfig ?ok []) False =
      Inr \<lparr>HTTPServer = \<lparr>Addr = Host (exampleConfig ?ok []) @ '':'' @ Itoa (Port (exampleConfig ?ok []))\<rparr>,
           cfg = exampleConfig ?ok [], prehandlers = [], isProduction = False\<rparr>"
    using NewServer_route_uniqueness [of exampleUtil "exampleConfig ?ok []" False] d1 by blast
  then have a: "NewServer exampleUtil (exampleConfig ?ok []) False = Inr (exampleServer ?ok [] [])"
    by (simp add: exampleServer_def) (simp add: exampleConfig_def port)
  obtain i j where ij: "i < j" "j < length (Routes (exampleConfig ?bad []))"
    and err: "NewServer exampleUtil (exampleConfig ?bad []) False =
      Inl (New (''Duplicate route path: '' @ q @ Path (Routes (exampleConfig ?bad []) ! j) @ q
                @ '' with '' @ q @ Path (Routes (exampleConfig ?bad []) ! i) @ q))"
    using NewServer_route_uniqueness [of exampleUtil "exampleConfig ?bad []" False] d2 by blast
  from ij have "j = 1 \<and> i = 0"
    by (auto simp: exampleConfig_def)
  with err have b: "NewServer exampleUtil (exampleConfig ?bad []) False =
      Inl (New (''Duplicate route path: '' @ q @ ''/users/:name'' @ q @ '' with '' @ q @ ''/users/:id'' @ q))"
    by (simp add: exampleConfig_def)
  from d1 a d2 b show ?thesis
    by (simp add: exampleConfig_def)
qed

section \<open>Loading the configuration\<close>

text \<open>
  Claim C8. When the descriptor file does not exist, \<open>LoadConfig\<close> returns the defaults
  and no error: host \<open>0.0.0.0\<close>, the port and the root given, the environment name, the
  internal blacklist with the path of the descriptor, and the API server
  \<open>http://localhost\<close>. When the file is read and \<open>json.Unmarshal\<close> fails, that error
  is what \<open>LoadConfig\<close> returns.
\<close>

theorem LoadConfig_descriptor_file:
  "(\<forall>e. ReadFile W (Join W root CONFIG_FILE_NAME) = Inl e \<and> IsNotExist e \<longrightarrow>
        LoadConfig W U env root port =
          (Config ''0.0.0.0'' port [] [] [] ''http://localhost'' None
             \<lparr>Dir = [], Default = [], KeyAsValue = False\<rparr> root env [''/gte.config.json''] None,
           None))
   \<and> (\<forall>b e. ReadFile W (Join W root CONFIG_FILE_NAME) = Inr b
          \<and> snd (Unmarshal W b
                 (Config ''0.0.0.0'' port [] [] [] ''http://localhost'' None
                    \<lparr>Dir = [], Default = [], KeyAsValue = False\<rparr> root env
                    [''/gte.config.json''] None)) = Some e \<longrightarrow>
        snd (LoadConfig W U env root port) = Some e)"
  by (auto simp: LoadConfig_def Let_def CONFIG_FILE_NAME_def split: prod.splits)

theorem LoadConfig_descriptor_file_witness:
  "ReadFile (exampleWorld []) (Join (exampleWorld []) ''www'' CONFIG_FILE_NAME)
      = Inl (NotExist ''www/gte.config.json'')
   \<and> IsNotExist (NotExist ''www/gte.config.json'')
   \<and> LoadConfig (exampleWorld []) exampleUtil [] ''www'' 8080 = (exampleConfig [] [], None)
   \<and> snd (LoadConfig
        (exampleWorld []\<lparr>ReadFile := \<lambda>p. Inr ''{'',
            json_decode := \<lambda>b v. (v, Some (New ''unexpected end of JSON input''))\<rparr>)
        exampleUtil [] ''www'' 8080)
      = Some (New ''unexpected end of JSON input'')"
proof -
  let ?W = "exampleWorld []"
  let ?W2 = "exampleWorld []\<lparr>ReadFile := \<lambda>p. Inr ''{'',
            json_decode := \<lambda>b v. (v, Some (New ''unexpected end of JSON input''))\<rparr>"
  have absent: "ReadFile ?W (Join ?W ''www'' CONFIG_FILE_NAME) = Inl (NotExist ''www/gte.config.json'')"
    by (simp add: exampleWorld_def CONFIG_FILE_NAME_def)
  have ne: "IsNotExist (NotExist ''www/gte.config.json'')"
    by simp
  have "LoadConfig ?W exampleUtil [] ''www'' 8080 =
          (Config ''0.0.0.0'' 8080 [] [] [] ''http://localhost'' None
             \<lparr>Dir = [], Default = [], KeyAsValue = False\<rparr> ''www'' [] [''/gte.config.json''] None,
           None)"
    using LoadConfig_descriptor_file [of ?W "''www''" exampleUtil "[]" 8080] absent ne by blast
  then have a: "LoadConfig ?W exampleUtil [] ''www'' 8080 = (exampleConfig [] [], None)"
    by (simp add: exampleConfig_def CONFIG_FILE_NAME_def)
  have present: "ReadFile ?W2 (Join ?W2 ''www'' CONFIG_FILE_NAME) = Inr ''{''"
    by simp
  have bad: "snd (Unmarshal ?W2 ''{''
                 (Config ''0.0.0.0'' 8080 [] [] [] ''http://localhost'' None
                    \<lparr>Dir = [], Default = [], KeyAsValue = False\<rparr> ''www'' []
                    [''/gte.config.json''] None)) = Some (New ''unexpected end of JSON input'')"
    by (simp add: Unmarshal_def)
  have b: "snd (LoadConfig ?W2 exampleUtil [] ''www'' 8080) = Some (New ''unexpected end of JSON input'')"
    using LoadConfig_descriptor_file [of ?W2 "''www''" exampleUtil "[]" 8080] present bad by blast
  from absent ne a b show ?thesis by simp
qed

lemma ReplaceFieldIND_spec_eq: "ReplaceFieldIND_spec dst src = (src, None)"
  by (simp add: ReplaceFieldIND_spec_def)

lemma handleEnvs_found:
  "Envs v = Some envs \<Longrightarrow> env \<noteq> [] \<Longrightarrow> map_of envs env = Some ov \<Longrightarrow>
   handleEnvs U env v = ReplaceFieldIND U v ov"
  by (simp add: handleEnvs_def)

lemma langCheck_no_dir: "Dir (Lang v) = [] \<Longrightarrow> langCheck W U v = (v, None)"
  by (simp add: langCheck_def)

text \<open>
  Claim C1. With \<open>util.ReplaceFieldIND\<close> as the specification describes it: when the
  descriptor parses, declares environments and the environment name given is one of them,
  every field of the configuration that \<open>LoadConfig\<close> returns is the field of the
  override, whatever the base held (the locale tables are then those that the locale
  block of the override makes the loader read). An override without locale directory is
  returned as it is, with no error; its zero fields have replaced those of the base.
\<close>

theorem LoadConfig_environment_override:
  assumes "ReadFile W (Join W root CONFIG_FILE_NAME) = Inr b"
    and "Unmarshal W b
           (Config ''0.0.0.0'' port [] [] [] ''http://localhost'' None
              \<lparr>Dir = [], Default = [], KeyAsValue = False\<rparr> root env
              [''/'' @ CONFIG_FILE_NAME] None) = (base, None)"
    and "Envs base = Some envs"
    and "env \<noteq> []"
    and "map_of envs env = Some ov"
    and "ReplaceFieldIND U = ReplaceFieldIND_spec"
  shows "(let v = fst (LoadConfig W U env root port) in
            Host v = Host ov \<and> Port v = Port ov \<and> Routes v = Routes ov
            \<and> NotFoundPage v = NotFoundPage ov \<and> BlackList v = BlackList ov
            \<and> ApiServer v = ApiServer ov \<and> Envs v = Envs ov \<and> Lang v = Lang ov
            \<and> Root v = Root ov \<and> Env v = Env ov
            \<and> InternalBlackList v = InternalBlackList ov)
         \<and> (Dir (Lang ov) = [] \<longrightarrow> LoadConfig W U env root port = (ov, None))"
proof -
  have env: "handleEnvs U env base = (ov, None)"
    using assms(3-6) by (simp add: handleEnvs_found ReplaceFieldIND_spec_eq)
  have load: "LoadConfig W U env root port = langCheck W U ov"
    using assms(1,2) env by (simp add: LoadConfig_def Let_def)
  have fields: "fst (langCheck W U ov) = ov \<or> (\<exists>m. fst (langCheck W U ov) = set_Strs ov m)"
    by (rule langCheck_cases)
  show ?thesis
    unfolding Let_def load using fields langCheck_no_dir [of ov W U]
    by (auto simp: set_Strs_sel)
qed

theorem LoadConfig_environment_override_witness:
  "LoadConfig
     (exampleWorld []\<lparr>ReadFile := \<lambda>p. Inr ''{...}'',
        json_decode := \<lambda>b v.
          (Config ''127.0.0.1'' 8080 [\<lparr>Path = ''/users/:id'', To = ''/user.html''\<rparr>] ''/404.html''
             [''/private''] ''http://localhost:12300''
             (Some [(''prod'',
                Config [] 9090 [] [] [] [] None \<lparr>Dir = [], Default = [], KeyAsValue = False\<rparr>
                  [] [] [] None)])
             \<lparr>Dir = [], Default = [], KeyAsValue = False\<rparr> [] [] [] None, None)\<rparr>)
     exampleUtil ''prod'' ''www'' 8080
   = (Config [] 9090 [] [] [] [] None \<lparr>Dir = [], Default = [], KeyAsValue = False\<rparr> [] [] [] None,
      None)"
proof -
  let ?ov = "Config [] 9090 [] [] [] [] None \<lparr>Dir = [], Default = [], KeyAsValue = False\<rparr> [] [] [] None"
  let ?dec = "Config ''127.0.0.1'' 8080 [\<lparr>Path = ''/users/:id'', To = ''/user.html''\<rparr>] ''/404.html''
             [''/private''] ''http://localhost:12300'' (Some [(''prod'', ?ov)])
             \<lparr>Dir = [], Default = [], KeyAsValue = False\<rparr> [] [] [] None"
  let ?base = "Config ''127.0.0.1'' 8080 [\<lparr>Path = ''/users/:id'', To = ''/user.html''\<rparr>] ''/404.html''
             [''/private''] ''http://localhost:12300'' (Some [(''prod'', ?ov)])
             \<lparr>Dir = [], Default = [], KeyAsValue = False\<rparr> ''www'' ''prod''
             [''/'' @ CONFIG_FILE_NAME] None"
  let ?W = "exampleWorld []\<lparr>ReadFile := \<lambda>p. Inr ''{...}'', json_decode := \<lambda>b v. (?dec, None)\<rparr>"
  have rd: "ReadFile ?W (Join ?W ''www'' CONFIG_FILE_NAME) = Inr ''{...}''"
    by simp
  have um: "Unmarshal ?W ''{...}''
           (Config ''0.0.0.0'' 8080 [] [] [] ''http://localhost'' None
              \<lparr>Dir = [], Default = [], KeyAsValue = False\<rparr> ''www'' ''prod''
              [''/'' @ CONFIG_FILE_NAME] None) = (?base, None)"
    by (simp add: Unmarshal_def)
  have envs: "Envs ?base = Some [(''prod'', ?ov)]"
    by simp
  have name: "''prod'' \<noteq> []"
    by simp
  have look: "map_of [(''prod'', ?ov)] ''prod'' = Some ?ov"
    by simp
  have repl: "ReplaceFieldIND exampleUtil = ReplaceFieldIND_spec"
    by (simp add: exampleUtil_def)
  have nodir: "Dir (Lang ?ov) = []"
    by simp
  from LoadConfig_environment_override [OF rd um envs name look repl] nodir
  show ?thesis by blast
qed

section \<open>The locale tables\<close>

lemma HasSuffix_append: "HasSuffix (k @ x) x"
  by (simp add: HasSuffix_def)

lemma TrimEnd_append: "TrimEnd (k @ x) x = k"
  by (simp add: TrimEnd_def HasSuffix_def)

lemma HasSuffix_split: "HasSuffix f x \<Longrightarrow> f = TrimEnd f x @ x"
proof -
  assume h: "HasSuffix f x"
  then have "drop (length f - length x) f = x"
    by (simp add: HasSuffix_def)
  then have "take (length f - length x) f @ x = f"
    by (metis append_take_drop_id)
  with h show ?thesis by (simp add: TrimEnd_def)
qed

text \<open>
  When the loop over the directory ends without error, a tag has a table exactly when it
  had one before or the directory holds the file named by the tag and the extension.
\<close>

lemma loadLangFiles_tables:
  "loadLangFiles W U langDir fs m0 = (m, None) \<Longrightarrow>
   (map_of m k \<noteq> None) = (map_of m0 k \<noteq> None \<or> k @ LANG_FILE_EXT U \<in> set fs)"
proof (induction fs arbitrary: m0)
  case Nil
  then show ?case by simp
next
  case (Cons f fs)
  show ?case
  proof (cases "HasSuffix f (LANG_FILE_EXT U)")
    case False
    then have "f \<noteq> k @ LANG_FILE_EXT U"
      using HasSuffix_append by blast
    moreover have "loadLangFiles W U langDir fs m0 = (m, None)"
      using Cons.prems False by simp
    ultimately show ?thesis using Cons.IH by auto
  next
    case True
    let ?lang = "TrimEnd f (LANG_FILE_EXT U)"
    from Cons.prems True obtain m1 where
      rest: "loadLangFiles W U langDir fs (AList.update ?lang m1 m0) = (m, None)"
      by (auto simp: Let_def split: option.splits sum.splits)
    have f: "f = ?lang @ LANG_FILE_EXT U"
      using True by (rule HasSuffix_split)
    have same: "(f = k @ LANG_FILE_EXT U) = (k = ?lang)"
      using f by (metis TrimEnd_append)
    have "(map_of m k \<noteq> None) =
        (map_of (AList.update ?lang m1 m0) k \<noteq> None \<or> k @ LANG_FILE_EXT U \<in> set fs)"
      using rest by (rule Cons.IH)
    then show ?thesis
      using same by (auto simp: update_conv')
  qed
qed

lemma langCheck_loaded:
  assumes "Dir (Lang v) \<noteq> []" and "Default (Lang v) \<noteq> []"
    and "langDir = Join W (Root v) (Dir (Lang v))"
    and "\<forall>e. Stat W langDir = Some e \<longrightarrow> \<not> IsNotExist e"
    and "ReadDir W langDir = Inr fs"
    and "loadLangFiles W U langDir fs [] = (m, None)"
  shows "langCheck W U v =
     (set_Strs v (Some m),
      if \<not> KeyAsValue (Lang v) \<and> map_of m (Default (Lang v)) = None
      then Some (New (''The default language resource file '' @ q @ Default (Lang v)
                      @ ''.json'' @ q @ '' not found''))
      else None)"
proof -
  have "\<not> (case Stat W langDir of None \<Rightarrow> False | Some e \<Rightarrow> IsNotExist e)"
    using assms(4) by (simp split: option.splits)
  then show ?thesis
    using assms(1,2,5,6) unfolding langCheck_def Let_def assms(3) [symmetric]
    by simp
qed

text \<open>
  Claim C6. Let the descriptor be read and parsed, the environment step pass, and the
  resulting configuration name a locale directory and a default locale; let the directory
  exist and every resource file in it load, giving the tables \<open>m\<close>. Then \<open>LoadConfig\<close>
  fails with the error "The default language resource file '<tag>.json' not found" when
  the key-as-value fallback is off and \<open>m\<close> has no table for the default tag, and it
  succeeds when the fallback is on or the table is there. The table is there exactly when
  the directory holds the file named by the tag and the resource extension.
\<close>

theorem default_locale_table_required:
  assumes "ReadFile W (Join W root CONFIG_FILE_NAME) = Inr b"
    and "Unmarshal W b
           (Config ''0.0.0.0'' port [] [] [] ''http://localhost'' None
              \<lparr>Dir = [], Default = [], KeyAsValue = False\<rparr> root env
              [''/'' @ CONFIG_FILE_NAME] None) = (v1, None)"
    and "handleEnvs U env v1 = (v, None)"
    and "Dir (Lang v) \<noteq> []" and "Default (Lang v) \<noteq> []"
    and "langDir = Join W (Root v) (Dir (Lang v))"
    and "\<forall>e. Stat W langDir = Some e \<longrightarrow> \<not> IsNotExist e"
    and "ReadDir W langDir = Inr fs"
    and "loadLangFiles W U langDir fs [] = (m, None)"
  shows "(\<not> KeyAsValue (Lang v) \<and> map_of m (Default (Lang v)) = None \<longrightarrow>
            LoadConfig W U env root port =
              (set_Strs v (Some m),
               Some (New (''The default language resource file '' @ q @ Default (Lang v)
                          @ ''.json'' @ q @ '' not found''))))
       \<and> (KeyAsValue (Lang v) \<or> map_of m (Default (Lang v)) \<noteq> None \<longrightarrow>
            LoadConfig W U env root port = (set_Strs v (Some m), None))
       \<and> (map_of m (Default (Lang v)) = None) = (Default (Lang v) @ LANG_FILE_EXT U \<notin> set fs)"
proof -
  have "LoadConfig W U env root port = langCheck W U v"
    using assms(1-3) by (simp add: LoadConfig_def Let_def)
  then have load: "LoadConfig W U env root port =
     (set_Strs v (Some m),
      if \<not> KeyAsValue (Lang v) \<and> map_of m (Default (Lang v)) = None
      then Some (New (''The default language resource file '' @ q @ Default (Lang v)
                      @ ''.json'' @ q @ '' not found''))
      else None)"
    using langCheck_loaded [OF assms(4-9)] by simp
  have tables: "(map_of m (Default (Lang v)) = None) = (Default (Lang v) @ LANG_FILE_EXT U \<notin> set fs)"
    using loadLangFiles_tables [OF assms(9), of "Default (Lang v)"] by auto
  show ?thesis
    using load tables by auto
qed

theorem default_locale_table_required_witness:
  "ReadDir (exampleWorld [''www/lang'']\<lparr>ReadFile := \<lambda>p. Inr ''{...}'',
        ReadDir := \<lambda>p. Inr [''README.md'', ''en.json''],
        json_decode := \<lambda>b v.
          (Config ''0.0.0.0'' 8080 [] [] [] ''http://localhost'' None
             \<lparr>Dir = ''lang'', Default = ''zh-CN'', KeyAsValue = False\<rparr> [] [] [] None, None)\<rparr>)
      ''www/lang'' = Inr [''README.md'', ''en.json'']
   \<and> LoadConfig
     (exampleWorld [''www/lang'']\<lparr>ReadFile := \<lambda>p. Inr ''{...}'',
        ReadDir := \<lambda>p. Inr [''README.md'', ''en.json''],
        json_decode := \<lambda>b v.
          (Config ''0.0.0.0'' 8080 [] [] [] ''http://localhost'' None
             \<lparr>Dir = ''lang'', Default = ''zh-CN'', KeyAsValue = False\<rparr> [] [] [] None, None)\<rparr>)
     exampleUtil [] ''www'' 8080
   = (Config ''0.0.0.0'' 8080 [] [] [] ''http://localhost'' None
        \<lparr>Dir = ''lang'', Default = ''zh-CN'', KeyAsValue = False\<rparr> ''www'' []
        [''/gte.config.json''] (Some [(''en'', [])]),
      Some (New (''The default language resource file '' @ q @ ''zh-CN.json'' @ q @ '' not found'')))"
proof -
  let ?lang = "\<lparr>Dir = ''lang'', Default = ''zh-CN'', KeyAsValue = False\<rparr>"
  let ?dec = "Config ''0.0.0.0'' 8080 [] [] [] ''http://localhost'' None ?lang [] [] [] None"
  let ?v = "Config ''0.0.0.0'' 8080 [] [] [] ''http://localhost'' None ?lang ''www'' []
              [''/'' @ CONFIG_FILE_NAME] None"
  let ?W = "exampleWorld [''www/lang'']\<lparr>ReadFile := \<lambda>p. Inr ''{...}'',
        ReadDir := \<lambda>p. Inr [''README.md'', ''en.json''],
        json_decode := \<lambda>b v. (?dec, None)\<rparr>"
  have rd: "ReadFile ?W (Join ?W ''www'' CONFIG_FILE_NAME) = Inr ''{...}''"
    by simp
  have um: "Unmarshal ?W ''{...}''
           (Config ''0.0.0.0'' 8080 [] [] [] ''http://localhost'' None
              \<lparr>Dir = [], Default = [], KeyAsValue = False\<rparr> ''www'' []
              [''/'' @ CONFIG_FILE_NAME] None) = (?v, None)"
    by (simp add: Unmarshal_def)
  have he: "handleEnvs exampleUtil [] ?v = (?v, None)"
    by (rule handleEnvs_no_env)
  have dir: "Dir (Lang ?v) \<noteq> []" and dflt: "Default (Lang ?v) \<noteq> []"
    by simp_all
  have ld: "''www/lang'' = Join ?W (Root ?v) (Dir (Lang ?v))"
    by (simp add: exampleWorld_def)
  have st: "\<forall>e. Stat ?W ''www/lang'' = Some e \<longrightarrow> \<not> IsNotExist e"
    by (simp add: exampleWorld_def)
  have ls: "ReadDir ?W ''www/lang'' = Inr [''README.md'', ''en.json'']"
    by simp
  have loaded: "loadLangFiles ?W exampleUtil ''www/lang'' [''README.md'', ''en.json''] []
      = ([(''en'', [])], None)"
    by (simp add: exampleUtil_def exampleWorld_def HasSuffix_def TrimEnd_def)
  have missing: "\<not> KeyAsValue (Lang ?v) \<and> map_of [(''en'', [])] (Default (Lang ?v)) = None"
    by simp
  have "LoadConfig ?W exampleUtil [] ''www'' 8080 =
      (set_Strs ?v (Some [(''en'', [])]),
       Some (New (''The default language resource file '' @ q @ Default (Lang ?v)
                  @ ''.json'' @ q @ '' not found'')))"
    using default_locale_table_required [OF rd um he dir dflt ld st ls loaded] missing
    by blast
  then show ?thesis
    using ls by (simp add: set_Strs_def CONFIG_FILE_NAME_def)
qed

section \<open>Parameters of a route\<close>

lemma HasPrefix_Nil: "\<not> HasPrefix [] '':''"
  by (simp add: HasPrefix_def)

lemma ParamsLoop_fold:
  "ParamsLoop ss1 ss2 m =
     fold (\<lambda>(a, x) m. if HasPrefix a '':'' then m(TrimStart a '':'' \<mapsto> x) else m) (zip ss1 ss2) m"
proof (induction ss1 arbitrary: ss2 m)
  case Nil
  then show ?case by simp
next
  case (Cons k ss1)
  then show ?case by (cases ss2) (simp_all add: HasPrefix_Nil fun_upd_def)
qed

lemma fold_params:
  "(fold (\<lambda>(a, x) m. if P a then m(T a \<mapsto> x) else m) ps m k = Some x) =
     ((\<exists>i < length ps. P (fst (ps ! i)) \<and> T (fst (ps ! i)) = k
           \<and> snd (ps ! i) = x
           \<and> (\<forall>j. i < j \<and> j < length ps \<and> P (fst (ps ! j)) \<longrightarrow> T (fst (ps ! j)) \<noteq> k))
      \<or> (m k = Some x
           \<and> (\<forall>j. j < length ps \<and> P (fst (ps ! j)) \<longrightarrow> T (fst (ps ! j)) \<noteq> k)))"
proof (induction ps arbitrary: x rule: rev_induct)
  case Nil
  then show ?case by simp
next
  case (snoc p ps)
  obtain a b where p: "p = (a, b)" by (cases p)
  let ?M = "fold (\<lambda>(a, x) m. if P a then m(T a \<mapsto> x) else m) ps m"
  show ?case
  proof (cases "P a \<and> T a = k")
    case True
    have l: "fold (\<lambda>(a, x) m. if P a then m(T a \<mapsto> x) else m) (ps @ [p]) m k = Some b"
      using True p by simp
    have r: "((\<exists>i < length (ps @ [p]). P (fst ((ps @ [p]) ! i)) \<and> T (fst ((ps @ [p]) ! i)) = k
           \<and> snd ((ps @ [p]) ! i) = x
           \<and> (\<forall>j. i < j \<and> j < length (ps @ [p]) \<and> P (fst ((ps @ [p]) ! j)) \<longrightarrow> T (fst ((ps @ [p]) ! j)) \<noteq> k))
      \<or> (m k = Some x
           \<and> (\<forall>j. j < length (ps @ [p]) \<and> P (fst ((ps @ [p]) ! j)) \<longrightarrow> T (fst ((ps @ [p]) ! j)) \<noteq> k)))
       = (b = x)"
      by (metis True fst_eqD length_append_singleton lessI not_less_eq
            not_less_less_Suc_eq nth_append_length p snd_eqD)
    show ?thesis
      unfolding l r by auto
  next
    case False
    have l: "fold (\<lambda>(a, x) m. if P a then m(T a \<mapsto> x) else m) (ps @ [p]) m k = ?M k"
      using False p by auto
    have r: "((\<exists>i < length (ps @ [p]). P (fst ((ps @ [p]) ! i)) \<and> T (fst ((ps @ [p]) ! i)) = k
           \<and> snd ((ps @ [p]) ! i) = x
           \<and> (\<forall>j. i < j \<and> j < length (ps @ [p]) \<and> P (fst ((ps @ [p]) ! j)) \<longrightarrow> T (fst ((ps @ [p]) ! j)) \<noteq> k))
      \<or> (m k = Some x
           \<and> (\<forall>j. j < length (ps @ [p]) \<and> P (fst ((ps @ [p]) ! j)) \<longrightarrow> T (fst ((ps @ [p]) ! j)) \<noteq> k)))
       = ((\<exists>i < length ps. P (fst (ps ! i)) \<and> T (fst (ps ! i)) = k
           \<and> snd (ps ! i) = x
           \<and> (\<forall>j. i < j \<and> j < length ps \<and> P (fst (ps ! j)) \<longrightarrow> T (fst (ps ! j)) \<noteq> k))
      \<or> (m k = Some x
           \<and> (\<forall>j. j < length ps \<and> P (fst (ps ! j)) \<longrightarrow> T (fst (ps ! j)) \<noteq> k)))"
    proof -
      have np: "\<not> (P (fst p) \<and> T (fst p) = k)"
        using False p by simp
      have all: "(\<forall>j. i < j \<and> j < length (ps @ [p]) \<and> P (fst ((ps @ [p]) ! j))
                      \<longrightarrow> T (fst ((ps @ [p]) ! j)) \<noteq> k)
               = (\<forall>j. i < j \<and> j < length ps \<and> P (fst (ps ! j)) \<longrightarrow> T (fst (ps ! j)) \<noteq> k)" for i
      proof
        assume h: "\<forall>j. i < j \<and> j < length (ps @ [p]) \<and> P (fst ((ps @ [p]) ! j))
                      \<longrightarrow> T (fst ((ps @ [p]) ! j)) \<noteq> k"
        show "\<forall>j. i < j \<and> j < length ps \<and> P (fst (ps ! j)) \<longrightarrow> T (fst (ps ! j)) \<noteq> k"
        proof (intro allI impI)
          fix j assume j: "i < j \<and> j < length ps \<and> P (fst (ps ! j))"
          then have "i < j \<and> j < length (ps @ [p]) \<and> P (fst ((ps @ [p]) ! j))"
            by (simp add: nth_append)
          with h have "T (fst ((ps @ [p]) ! j)) \<noteq> k" by blast
          with j show "T (fst (ps ! j)) \<noteq> k" by (simp add: nth_append)
        qed
      next
        assume h: "\<forall>j. i < j \<and> j < length ps \<and> P (fst (ps ! j)) \<longrightarrow> T (fst (ps ! j)) \<noteq> k"
        show "\<forall>j. i < j \<and> j < length (ps @ [p]) \<and> P (fst ((ps @ [p]) ! j))
                      \<longrightarrow> T (fst ((ps @ [p]) ! j)) \<noteq> k"
        proof (intro allI impI)
          fix j assume j: "i < j \<and> j < length (ps @ [p]) \<and> P (fst ((ps @ [p]) ! j))"
          show "T (fst ((ps @ [p]) ! j)) \<noteq> k"
          proof (cases "j < length ps")
            case True
            with j h show ?thesis by (simp add: nth_append)
          next
            case False
            with j have "j = length ps" by simp
            with j np show ?thesis by auto
          qed
        qed
      qed
      have all0: "(\<forall>j. j < length (ps @ [p]) \<and> P (fst ((ps @ [p]) ! j))
                      \<longrightarrow> T (fst ((ps @ [p]) ! j)) \<noteq> k)
               = (\<forall>j. j < length ps \<and> P (fst (ps ! j)) \<longrightarrow> T (fst (ps ! j)) \<noteq> k)"
      proof
        assume h: "\<forall>j. j < length (ps @ [p]) \<and> P (fst ((ps @ [p]) ! j))
                      \<longrightarrow> T (fst ((ps @ [p]) ! j)) \<noteq> k"
        show "\<forall>j. j < length ps \<and> P (fst (ps ! j)) \<longrightarrow> T (fst (ps ! j)) \<noteq> k"
        proof (intro allI impI)
          fix j assume j: "j < length ps \<and> P (fst (ps ! j))"
          then have "j < length (ps @ [p]) \<and> P (fst ((ps @ [p]) ! j))"
            by (simp add: nth_append)
          with h have "T (fst ((ps @ [p]) ! j)) \<noteq> k" by blast
          with j show "T (fst (ps ! j)) \<noteq> k" by (simp add: nth_append)
        qed
      next
        assume h: "\<forall>j. j < length ps \<and> P (fst (ps ! j)) \<longrightarrow> T (fst (ps ! j)) \<noteq> k"
        show "\<forall>j. j < length (ps @ [p]) \<and> P (fst ((ps @ [p]) ! j))
                      \<longrightarrow> T (fst ((ps @ [p]) ! j)) \<noteq> k"
        proof (intro allI impI)
          fix j assume j: "j < length (ps @ [p]) \<and> P (fst ((ps @ [p]) ! j))"
          show "T (fst ((ps @ [p]) ! j)) \<noteq> k"
          proof (cases "j < length ps")
            case True
            with j h show ?thesis by (simp add: nth_append)
          next
            case False
            with j have "j = length ps" by simp
            with j np show ?thesis by auto
          qed
        qed
      qed
      have ex: "(\<exists>i < length (ps @ [p]). P (fst ((ps @ [p]) ! i)) \<and> T (fst ((ps @ [p]) ! i)) = k
                   \<and> snd ((ps @ [p]) ! i) = x \<and> Q i)
             = (\<exists>i < length ps. P (fst (ps ! i)) \<and> T (fst (ps ! i)) = k \<and> snd (ps ! i) = x \<and> Q i)"
        for Q
      proof
        assume "\<exists>i < length (ps @ [p]). P (fst ((ps @ [p]) ! i)) \<and> T (fst ((ps @ [p]) ! i)) = k
                   \<and> snd ((ps @ [p]) ! i) = x \<and> Q i"
        then obtain i where i: "i < length (ps @ [p])" "P (fst ((ps @ [p]) ! i))"
            "T (fst ((ps @ [p]) ! i)) = k" "snd ((ps @ [p]) ! i) = x" "Q i"
          by blast
        have "i \<noteq> length ps"
          using i(2,3) np by auto
        with i(1) have lt: "i < length ps" by simp
        with i have "P (fst (ps ! i)) \<and> T (fst (ps ! i)) = k \<and> snd (ps ! i) = x \<and> Q i"
          by (simp add: nth_append)
        with lt show "\<exists>i < length ps. P (fst (ps ! i)) \<and> T (fst (ps ! i)) = k \<and> snd (ps ! i) = x \<and> Q i"
          by blast
      next
        assume "\<exists>i < length ps. P (fst (ps ! i)) \<and> T (fst (ps ! i)) = k \<and> snd (ps ! i) = x \<and> Q i"
        then obtain i where i: "i < length ps" "P (fst (ps ! i)) \<and> T (fst (ps ! i)) = k \<and> snd (ps ! i) = x \<and> Q i"
          by blast
        then have "i < length (ps @ [p]) \<and> P (fst ((ps @ [p]) ! i)) \<and> T (fst ((ps @ [p]) ! i)) = k
                   \<and> snd ((ps @ [p]) ! i) = x \<and> Q i"
          by (simp add: nth_append)
        then show "\<exists>i < length (ps @ [p]). P (fst ((ps @ [p]) ! i)) \<and> T (fst ((ps @ [p]) ! i)) = k
                   \<and> snd ((ps @ [p]) ! i) = x \<and> Q i"
          by blast
      qed
      show ?thesis
        by (simp only: all all0 ex)
    qed
    show ?thesis
      unfolding l r by (rule snoc.IH)
  qed
qed

text \<open>
  Claim C9. \<open>Params\<close> binds the name \<open>k\<close> to the value \<open>x\<close> exactly when some position
  \<open>i\<close>, within both the segments of the route path and the segments of the request path,
  holds a parameter segment (one that starts with \<open>:\<close>) whose name, the segment without
  the \<open>:\<close>, is \<open>k\<close>, the segment of the request path at \<open>i\<close> is \<open>x\<close>, and no later
  position within both holds a parameter of the same name. Segments that are no parameters
  bind nothing, and positions beyond the shorter sequence are not looked at. For the
  pattern \<open>/users/:id/posts/:postId\<close> and the path \<open>/users/42/posts/7\<close> the result maps
  \<open>id\<close> to \<open>42\<close> and \<open>postId\<close> to \<open>7\<close> and nothing else.
\<close>

theorem Params_positional:
  "(let ss1 = Split (Path r) CHR ''/''; ss2 = Split uri CHR ''/'' in
      (Params r uri k = Some x) =
        (\<exists>i. i < length ss1 \<and> i < length ss2
             \<and> HasPrefix (ss1 ! i) '':'' \<and> TrimStart (ss1 ! i) '':'' = k \<and> ss2 ! i = x
             \<and> (\<forall>j. i < j \<and> j < length ss1 \<and> j < length ss2 \<and> HasPrefix (ss1 ! j) '':''
                   \<longrightarrow> TrimStart (ss1 ! j) '':'' \<noteq> k)))
   \<and> Params \<lparr>Path = ''/users/:id/posts/:postId'', To = t\<rparr> ''/users/42/posts/7''
       = [''id'' \<mapsto> ''42'', ''postId'' \<mapsto> ''7'']"
proof
  let ?ss1 = "Split (Path r) CHR ''/''" and ?ss2 = "Split uri CHR ''/''"
  let ?ps = "zip ?ss1 ?ss2"
  have len: "j < length ?ps \<longleftrightarrow> j < length ?ss1 \<and> j < length ?ss2" for j
    by simp
  have "(Params r uri k = Some x) =
      ((\<exists>i < length ?ps. HasPrefix (fst (?ps ! i)) '':'' \<and> TrimStart (fst (?ps ! i)) '':'' = k
           \<and> snd (?ps ! i) = x
           \<and> (\<forall>j. i < j \<and> j < length ?ps \<and> HasPrefix (fst (?ps ! j)) '':''
                 \<longrightarrow> TrimStart (fst (?ps ! j)) '':'' \<noteq> k))
      \<or> (Map.empty k = Some x
           \<and> (\<forall>j. j < length ?ps \<and> HasPrefix (fst (?ps ! j)) '':''
                 \<longrightarrow> TrimStart (fst (?ps ! j)) '':'' \<noteq> k)))"
    unfolding Params_def ParamsLoop_fold by (rule fold_params)
  also have "\<dots> =
      (\<exists>i. i < length ?ss1 \<and> i < length ?ss2
           \<and> HasPrefix (?ss1 ! i) '':'' \<and> TrimStart (?ss1 ! i) '':'' = k \<and> ?ss2 ! i = x
           \<and> (\<forall>j. i < j \<and> j < length ?ss1 \<and> j < length ?ss2 \<and> HasPrefix (?ss1 ! j) '':''
                 \<longrightarrow> TrimStart (?ss1 ! j) '':'' \<noteq> k))"
    by (auto simp: len)
  finally show "let ss1 = ?ss1; ss2 = ?ss2 in
      (Params r uri k = Some x) =
        (\<exists>i. i < length ss1 \<and> i < length ss2
             \<and> HasPrefix (ss1 ! i) '':'' \<and> TrimStart (ss1 ! i) '':'' = k \<and> ss2 ! i = x
             \<and> (\<forall>j. i < j \<and> j < length ss1 \<and> j < length ss2 \<and> HasPrefix (ss1 ! j) '':''
                   \<longrightarrow> TrimStart (ss1 ! j) '':'' \<noteq> k))"
    by (simp only: Let_def)
next
  show "Params \<lparr>Path = ''/users/:id/posts/:postId'', To = t\<rparr> ''/users/42/posts/7''
       = [''id'' \<mapsto> ''42'', ''postId'' \<mapsto> ''7'']"
    by (simp add: Params_def HasPrefix_def TrimStart_def fun_upd_def)
qed

theorem Params_positional_witness:
  "Split ''/users/:id/posts/:postId'' CHR ''/'' = ['''', ''users'', '':id'', ''posts'', '':postId'']
   \<and> Split ''/users/42/posts/7'' CHR ''/'' = ['''', ''users'', ''42'', ''posts'', ''7'']
   \<and> Params \<lparr>Path = ''/users/:id/posts/:postId'', To = ''/post.html''\<rparr> ''/users/42/posts/7'' ''id''
       = Some ''42''"
proof -
  let ?r = "\<lparr>Path = ''/users/:id/posts/:postId'', To = ''/post.html''\<rparr>"
  let ?ss1 = "Split (Path ?r) CHR ''/''" and ?ss2 = "Split ''/users/42/posts/7'' CHR ''/''"
  have ss1: "Split ''/users/:id/posts/:postId'' CHR ''/'' = ['''', ''users'', '':id'', ''posts'', '':postId'']"
    by simp
  have ss2: "Split ''/users/42/posts/7'' CHR ''/'' = ['''', ''users'', ''42'', ''posts'', ''7'']"
    by simp
  have later: "\<forall>j. 2 < j \<and> j < length ?ss1 \<and> j < length ?ss2 \<and> HasPrefix (?ss1 ! j) '':''
                   \<longrightarrow> TrimStart (?ss1 ! j) '':'' \<noteq> ''id''"
  proof (intro allI impI)
    fix j :: nat
    assume j: "2 < j \<and> j < length ?ss1 \<and> j < length ?ss2 \<and> HasPrefix (?ss1 ! j) '':''"
    then have "j = 3 \<or> j = 4"
      by (simp add: ss1) arith
    then show "TrimStart (?ss1 ! j) '':'' \<noteq> ''id''"
      by (auto simp: ss1 TrimStart_def HasPrefix_def)
  qed
  have at: "2 < length ?ss1 \<and> 2 < length ?ss2
      \<and> HasPrefix (?ss1 ! 2) '':'' \<and> TrimStart (?ss1 ! 2) '':'' = ''id'' \<and> ?ss2 ! 2 = ''42''"
    by (simp add: ss1 ss2 HasPrefix_def TrimStart_def)
  have "(Params ?r ''/users/42/posts/7'' ''id'' = Some ''42'') =
        (\<exists>i. i < length ?ss1 \<and> i < length ?ss2
             \<and> HasPrefix (?ss1 ! i) '':'' \<and> TrimStart (?ss1 ! i) '':'' = ''id'' \<and> ?ss2 ! i = ''42''
             \<and> (\<forall>j. i < j \<and> j < length ?ss1 \<and> j < length ?ss2 \<and> HasPrefix (?ss1 ! j) '':''
                   \<longrightarrow> TrimStart (?ss1 ! j) '':'' \<noteq> ''id''))"
    using Params_positional [of ?r "''/users/42/posts/7''" "''id''" "''42''"]
    unfolding Let_def by (rule conjunct1)
  then have "Params ?r ''/users/42/posts/7'' ''id'' = Some ''42''"
    using at later by blast
  with ss1 ss2 show ?thesis by simp
qed

end
